theory Spec2Isabelle
  imports Complex_Main "HOL-Library.AList" "HOL-Library.List_Lexorder" "HOL-Library.Char_ord"
begin

section \<open>Documents, exceptions and aggregation pipelines\<close>

text \<open>
  The query engine of \<^verbatim>\<open>api/app/driver/mongo.py\<close> works on Python dictionaries
  (\<^verbatim>\<open>dict[str, object]\<close>). A dictionary is an association list in insertion order;
  \<^verbatim>\<open>d[k]\<close> and \<^verbatim>\<open>d.get(k)\<close> read it with \<open>map_of\<close>, \<^verbatim>\<open>d[k] = v\<close> is
  \<open>AList.update\<close> (in place for an old key, at the end for a new one) and
  \<^verbatim>\<open>d.pop(k, None)\<close> is \<open>AList.delete\<close>.

  Values are taken up to Python's \<^verbatim>\<open>==\<close>: a number is a real (\<^verbatim>\<open>True == 1 == 1.0\<close>
  are one dictionary key in Python, so booleans are the numbers 0 and 1), which leaves
  out NaN and the infinities.
\<close>

datatype val =
    VNone
  | VNum real
  | VStr string
  | VList "val list"
  | VDoc "(string \<times> val) list"

type_synonym doc = "(string \<times> val) list"

text \<open>
  Exceptions (instances of Python's \<^verbatim>\<open>Exception\<close>): the two the dictionary code can
  raise itself, the \<^verbatim>\<open>ValueError\<close> of the container, and \<open>External\<close> for an exception
  an external collaborator raises (a driver, the database transport).
\<close>

datatype exn =
    KeyError string
  | TypeError
  | ValueError string
  | External nat

text \<open>\<^verbatim>\<open>d.get(k)\<close>: the value, or Python's \<^verbatim>\<open>None\<close>.\<close>

definition dget :: "doc \<Rightarrow> string \<Rightarrow> val" where
  "dget d k = (case map_of d k of None \<Rightarrow> VNone | Some v \<Rightarrow> v)"

text \<open>Lists and dictionaries are unhashable: using one as a dictionary key raises.\<close>

fun hashable :: "val \<Rightarrow> bool" where
  "hashable (VList _) = False"
| "hashable (VDoc _) = False"
| "hashable _ = True"

text \<open>
  A pipeline is the list of stage dictionaries the code builds. \<open>cond\<close> is the right-hand
  side of one field of a query document, \<open>filter\<close> a query document, \<open>proj\<close> the right-hand
  side of one field of a \<^verbatim>\<open>$project\<close>.
\<close>

datatype cond =
    Eq val
  | Gte val
  | Range val val
  | RegexI string

datatype filter =
    ExprTrue
  | Text string
  | Fields "(string \<times> cond) list"
  | Or "filter list"

datatype proj =
    Excl
  | Incl
  | Path string
  | RoundKm string

datatype stage =
    GeoNear real real string real
  | Match filter
  | Group "(string \<times> string) list"
  | Project "(string \<times> proj) list"
  | AddTextScore
  | SortTextScore
  | Limit int

type_synonym pipeline = "stage list"

text \<open>
  The database is an external collaborator: it answers an aggregation on a collection
  with documents or with an exception. \<^verbatim>\<open>database_name\<close> is handed unchanged to every
  \<^verbatim>\<open>aggregate\<close> call, so \<open>db\<close> stands for the database it selects. The queries issued
  are recorded in a log that every operation threads through.
\<close>

type_synonym db = "string \<Rightarrow> pipeline \<Rightarrow> exn + doc list"
type_synonym qlog = "(string \<times> pipeline) list"

definition aggregate :: "db \<Rightarrow> string \<Rightarrow> pipeline \<Rightarrow> qlog \<Rightarrow> (exn + doc list) \<times> qlog" where
  "aggregate db collection_name pl qs = (db collection_name pl, qs @ [(collection_name, pl)])"

text \<open>The arguments of the two query operations (\<^verbatim>\<open>None\<close> is \<open>None\<close>).\<close>

record query =
  longitude :: real
  latitude :: real
  drink_tags :: "string list option"
  brands :: "string list option"
  review_count_range :: "(int \<times> int) option"
  rating_range :: "(real \<times> real) option"
  distance_range :: "(int \<times> int) option"
  platform :: "string option"
  limit :: "int option"

text \<open>
  Python truthiness: an optional list is truthy when \<open>tags_of\<close> of it is not empty, an
  optional string likewise, an optional integer when \<open>int_of\<close> of it is not zero.
\<close>

definition tags_of :: "'a list option \<Rightarrow> 'a list" where
  "tags_of x = (case x of None \<Rightarrow> [] | Some xs \<Rightarrow> xs)"

definition int_of :: "int option \<Rightarrow> int" where
  "int_of x = (case x of None \<Rightarrow> 0 | Some n \<Rightarrow> n)"

subsection \<open>Filter builders\<close>

text \<open>
  \<^verbatim>\<open>_build_geospatial_filter(longitude, latitude, radius_km)\<close>: the \<^verbatim>\<open>$geoNear\<close> stage;
  \<^verbatim>\<open>maxDistance\<close> is \<^verbatim>\<open>radius_km * 1000\<close>, in meters.
\<close>

definition build_geospatial_filter :: "real \<Rightarrow> real \<Rightarrow> real \<Rightarrow> stage" where
  "build_geospatial_filter lon lat radius_km =
     GeoNear lon lat ''distance_in_meter'' (radius_km * 1000)"

text \<open>
  \<^verbatim>\<open>max_distance_km = 5.0 if not distance_range else distance_range[1]\<close>, the same line
  in \<^verbatim>\<open>_find_qualifying_stores\<close>, \<^verbatim>\<open>_find_stores_with_drink_tags\<close> and
  \<^verbatim>\<open>_find_stores_without_drink_filter\<close>. A pair is never falsy.
\<close>

definition max_distance_km :: "(int \<times> int) option \<Rightarrow> real" where
  "max_distance_km dr = (case dr of None \<Rightarrow> 5 | Some (lo, hi) \<Rightarrow> real_of_int hi)"

text \<open>The search radius a \<^verbatim>\<open>$geoNear\<close> stage asks for, in kilometers.\<close>

fun radius_km_of :: "stage \<Rightarrow> real option" where
  "radius_km_of (GeoNear lon lat fld m) = Some (m / 1000)"
| "radius_km_of _ = None"

text \<open>\<^verbatim>\<open>_build_store_filters(platform, rating_range, review_count_range)\<close>.\<close>

definition build_store_filters ::
  "string option \<Rightarrow> (real \<times> real) option \<Rightarrow> (int \<times> int) option \<Rightarrow> filter" where
  "build_store_filters pf rr rc =
     (let f1 = (if tags_of pf \<noteq> [] then [(''platform'', Eq (VStr (tags_of pf)))] else []);
          f2 = (case rr of None \<Rightarrow> f1
                | Some (lo, hi) \<Rightarrow> AList.update ''rating.value'' (Range (VNum lo) (VNum hi)) f1);
          f3 = (case rc of None \<Rightarrow> f2
                | Some (lo, hi) \<Rightarrow>
                    AList.update ''rating.review_count''
                      (Range (VNum (real_of_int lo)) (VNum (real_of_int hi))) f2)
      in if f3 = [] then ExprTrue else Fields f3)"

text \<open>\<^verbatim>\<open>" ".join(drink_tags)\<close>.\<close>

fun join_space :: "string list \<Rightarrow> string" where
  "join_space [] = []"
| "join_space [t] = t"
| "join_space (t # ts) = t @ '' '' @ join_space ts"

text \<open>\<^verbatim>\<open>_build_drink_tags_filter(drink_tags)\<close>.\<close>

definition build_drink_tags_filter :: "string list \<Rightarrow> filter" where
  "build_drink_tags_filter tags = (if tags = [] then ExprTrue else Text (join_space tags))"

text \<open>The brand stage, present when \<^verbatim>\<open>brands\<close> is a non-empty list.\<close>

definition brand_stages :: "string list option \<Rightarrow> stage list" where
  "brand_stages bs =
     (if tags_of bs \<noteq> []
      then [Match (Or (map (\<lambda>brand. Fields [(''name'', RegexI brand)]) (tags_of bs)))]
      else [])"

subsection \<open>Phase 1 of \<^verbatim>\<open>find_drinks\<close>\<close>

text \<open>The pipeline \<^verbatim>\<open>_find_qualifying_stores\<close> builds.\<close>

definition qualifying_pipeline :: "query \<Rightarrow> pipeline" where
  "qualifying_pipeline q =
     [build_geospatial_filter (longitude q) (latitude q) (max_distance_km (distance_range q)),
      Match (build_store_filters (platform q) (rating_range q) (review_count_range q))]
     @ brand_stages (brands q)
     @ [Project [(''_id'', Excl), (''store_id'', Incl), (''name'', Incl), (''brand'', Incl),
                 (''address'', Incl), (''platform'', Incl), (''rating'', Incl),
                 (''review_count'', Incl), (''cuisines'', Incl), (''source_url'', Incl),
                 (''distance_in_meter'', Path ''$distance_in_meter''),
                 (''distance_in_km'', RoundKm ''$distance_in_meter'')]]"

definition find_qualifying_stores :: "db \<Rightarrow> query \<Rightarrow> qlog \<Rightarrow> (exn + doc list) \<times> qlog" where
  "find_qualifying_stores db q qs = aggregate db ''store'' (qualifying_pipeline q) qs"

subsection \<open>Phase 2 of \<^verbatim>\<open>find_drinks\<close>\<close>

text \<open>
  The loop \<^verbatim>\<open>for store in stores: store_conditions.append({"store_id": store["store_id"]})\<close>,
  the same in \<^verbatim>\<open>_find_drinks_from_stores\<close>, \<^verbatim>\<open>_find_stores_with_drink_tags\<close> and
  \<^verbatim>\<open>_join_menu_data\<close>. A document with no \<^verbatim>\<open>store_id\<close> raises \<^verbatim>\<open>KeyError\<close>.
\<close>

fun store_conditions :: "doc list \<Rightarrow> exn + filter list" where
  "store_conditions [] = Inr []"
| "store_conditions (store # stores) =
     (case map_of store ''store_id'' of
        None \<Rightarrow> Inl (KeyError ''store_id'')
      | Some v \<Rightarrow>
          (case store_conditions stores of
             Inl e \<Rightarrow> Inl e
           | Inr cs \<Rightarrow> Inr (Fields [(''store_id'', Eq v)] # cs)))"

text \<open>The \<^verbatim>\<open>menu_item\<close> pipeline of \<^verbatim>\<open>_find_drinks_from_stores\<close>.\<close>

definition drinks_pipeline :: "filter list \<Rightarrow> string list option \<Rightarrow> int option \<Rightarrow> pipeline" where
  "drinks_pipeline conds tags lmt =
     (if tags_of tags \<noteq> [] then [Match (build_drink_tags_filter (tags_of tags))] else [])
     @ [Match (Fields [(''price'', Gte (VNum 20))])]
     @ [Match (Or conds)]
     @ (if tags_of tags \<noteq> [] then [AddTextScore] else [])
     @ [Project ([(''_id'', Excl), (''item_id'', Incl), (''name'', Incl), (''description'', Incl),
                  (''price'', Incl), (''image_url'', Incl), (''category'', Incl),
                  (''is_popular'', Incl), (''options'', Incl), (''store_id'', Incl),
                  (''platforms'', Incl)]
                 @ (if tags_of tags \<noteq> [] then [(''text_score'', Incl)] else []))]
     @ (if tags_of tags \<noteq> [] then [SortTextScore] else [])
     @ (if int_of lmt \<noteq> 0 then [Limit (int_of lmt)] else [])"

text \<open>
  The key of the in-memory join: \<^verbatim>\<open>(d["store_id"], d.get("platforms"))\<close>. The second
  component is the document's \<^verbatim>\<open>platforms\<close> entry, \<^verbatim>\<open>None\<close> when it has none.
\<close>

definition join_key :: "doc \<Rightarrow> exn + (val \<times> val)" where
  "join_key d =
     (case map_of d ''store_id'' of
        None \<Rightarrow> Inl (KeyError ''store_id'')
      | Some sid \<Rightarrow>
          if hashable sid \<and> hashable (dget d ''platforms'')
          then Inr (sid, dget d ''platforms'') else Inl TypeError)"

text \<open>\<^verbatim>\<open>for store in stores: store_index[key] = store\<close>: a later store replaces an earlier
  one with the same key.\<close>

fun build_store_index :: "doc list \<Rightarrow> (val \<times> val \<rightharpoonup> doc) \<Rightarrow> exn + (val \<times> val \<rightharpoonup> doc)" where
  "build_store_index [] idx = Inr idx"
| "build_store_index (store # stores) idx =
     (case join_key store of
        Inl e \<Rightarrow> Inl e
      | Inr key \<Rightarrow> build_store_index stores (idx(key \<mapsto> store)))"

text \<open>
  The body of \<^verbatim>\<open>if store_data:\<close>. \<^verbatim>\<open>item.pop(k, default)\<close> evaluates its default first,
  takes the item's own entry when there is one, and the assignment puts the key back at
  the end of the dictionary.
\<close>

definition attach_store :: "doc \<Rightarrow> doc \<Rightarrow> exn + doc" where
  "attach_store item store_data =
     (case map_of store_data ''store_id'' of
        None \<Rightarrow> Inl (KeyError ''store_id'')
      | Some sd_id \<Rightarrow>
          (let v1 = (case map_of item ''store_id'' of Some v \<Rightarrow> v | None \<Rightarrow> sd_id);
               item1 = AList.update ''store_id'' v1 (AList.delete ''store_id'' item);
               v2 = (case map_of item1 ''platform'' of
                       Some v \<Rightarrow> v | None \<Rightarrow> dget store_data ''platform'');
               item2 = AList.update ''platform'' v2 (AList.delete ''platform'' item1);
               item3 = AList.update ''store_name'' (dget store_data ''name'') item2;
               item4 = AList.update ''store_url'' (dget store_data ''source_url'') item3;
               item5 = AList.update ''brand_name'' (dget store_data ''brand'') item4
           in Inr item5))"

text \<open>
  The loop over the menu items. \<^verbatim>\<open>if store_data:\<close> is false for \<^verbatim>\<open>None\<close> (no store
  under the key) and for an empty dictionary; such an item is skipped.
\<close>

fun join_items :: "(val \<times> val \<rightharpoonup> doc) \<Rightarrow> doc list \<Rightarrow> exn + doc list" where
  "join_items idx [] = Inr []"
| "join_items idx (item # items) =
     (case join_key item of
        Inl e \<Rightarrow> Inl e
      | Inr key \<Rightarrow>
          (case idx key of
             None \<Rightarrow> join_items idx items
           | Some store_data \<Rightarrow>
               if store_data = [] then join_items idx items
               else (case attach_store item store_data of
                       Inl e \<Rightarrow> Inl e
                     | Inr item' \<Rightarrow>
                         (case join_items idx items of
                            Inl e \<Rightarrow> Inl e
                          | Inr r \<Rightarrow> Inr (item' # r)))))"

text \<open>
  \<^verbatim>\<open>list.sort(key=..., reverse=True)\<close>: Python reverses the list, sorts it stably in
  ascending order and reverses it again, so equal keys keep their order.
\<close>

definition sort_desc :: "('a \<Rightarrow> 'k::linorder) \<Rightarrow> 'a list \<Rightarrow> 'a list" where
  "sort_desc key xs = rev (sort_key key (rev xs))"

fun is_num :: "val \<Rightarrow> bool" where
  "is_num (VNum _) = True"
| "is_num _ = False"

fun is_str :: "val \<Rightarrow> bool" where
  "is_str (VStr _) = True"
| "is_str _ = False"

fun num_of :: "val \<Rightarrow> real" where
  "num_of (VNum x) = x"
| "num_of _ = 0"

fun str_of :: "val \<Rightarrow> string" where
  "str_of (VStr s) = s"
| "str_of _ = []"

text \<open>
  \<^verbatim>\<open>result.sort(key=lambda x: x["text_score"], reverse=True)\<close>. Python computes every key
  first (\<^verbatim>\<open>KeyError\<close> for an item with no score) and then compares them: numbers with
  numbers and strings with strings; a list of fewer than two items needs no comparison.
  Anything else is \<^verbatim>\<open>TypeError\<close> here, which is what Python does for \<^verbatim>\<open>None\<close>,
  dictionaries and mixed keys (list-valued scores, which Python could compare, are not
  modelled).
\<close>

fun text_scores :: "doc list \<Rightarrow> exn + val list" where
  "text_scores [] = Inr []"
| "text_scores (x # xs) =
     (case map_of x ''text_score'' of
        None \<Rightarrow> Inl (KeyError ''text_score'')
      | Some k \<Rightarrow> (case text_scores xs of Inl e \<Rightarrow> Inl e | Inr ks \<Rightarrow> Inr (k # ks)))"

definition sort_by_text_score :: "doc list \<Rightarrow> exn + doc list" where
  "sort_by_text_score xs =
     (case text_scores xs of
        Inl e \<Rightarrow> Inl e
      | Inr ks \<Rightarrow>
          if length xs \<le> 1 then Inr xs
          else if list_all is_num ks then Inr (sort_desc (\<lambda>x. num_of (dget x ''text_score'')) xs)
          else if list_all is_str ks then Inr (sort_desc (\<lambda>x. str_of (dget x ''text_score'')) xs)
          else Inl TypeError)"

text \<open>\<^verbatim>\<open>_find_drinks_from_stores(stores, drink_tags, platform, limit, database_name)\<close>;
  the code never reads \<^verbatim>\<open>platform\<close>.\<close>

definition find_drinks_from_stores ::
  "db \<Rightarrow> doc list \<Rightarrow> string list option \<Rightarrow> string option \<Rightarrow> int option \<Rightarrow> qlog
   \<Rightarrow> (exn + doc list) \<times> qlog" where
  "find_drinks_from_stores db stores tags pf lmt qs =
     (case store_conditions stores of
        Inl e \<Rightarrow> (Inl e, qs)
      | Inr conds \<Rightarrow>
          (case aggregate db ''menu_item'' (drinks_pipeline conds tags lmt) qs of
             (Inl e, qs1) \<Rightarrow> (Inl e, qs1)
           | (Inr menu_items, qs1) \<Rightarrow>
               (case build_store_index stores Map.empty of
                  Inl e \<Rightarrow> (Inl e, qs1)
                | Inr idx \<Rightarrow>
                    (case join_items idx menu_items of
                       Inl e \<Rightarrow> (Inl e, qs1)
                     | Inr result \<Rightarrow>
                         if tags_of tags \<noteq> [] then (sort_by_text_score result, qs1)
                         else (Inr result, qs1)))))"

text \<open>\<^verbatim>\<open>find_drinks\<close>: phase 1, the short cut on an empty store list, phase 2.\<close>

definition find_drinks :: "db \<Rightarrow> query \<Rightarrow> qlog \<Rightarrow> (exn + doc list) \<times> qlog" where
  "find_drinks db q qs =
     (case find_qualifying_stores db q qs of
        (Inl e, qs1) \<Rightarrow> (Inl e, qs1)
      | (Inr qualifying_stores, qs1) \<Rightarrow>
          if qualifying_stores = [] then (Inr [], qs1)
          else find_drinks_from_stores db qualifying_stores (drink_tags q) (platform q) (limit q) qs1)"

subsection \<open>\<^verbatim>\<open>find_drink_stores_with_menu\<close>\<close>

text \<open>The \<^verbatim>\<open>$project\<close> stage both store pipelines of this operation end with.\<close>

definition store_projection :: stage where
  "store_projection =
     Project [(''_id'', Excl), (''store_id'', Incl), (''name'', Incl), (''address'', Incl),
              (''platforms'', Incl), (''rating'', Incl), (''review_count'', Incl),
              (''cuisines'', Incl), (''distance_in_meter'', Path ''$distance_in_meter''),
              (''distance_in_km'', RoundKm ''$distance_in_meter'')]"

text \<open>Phase 1 of \<^verbatim>\<open>_find_stores_with_drink_tags\<close>: the \<^verbatim>\<open>menu_item\<close> pipeline.\<close>

definition matching_pipeline :: "string list \<Rightarrow> string option \<Rightarrow> pipeline" where
  "matching_pipeline tags pf =
     [Match (build_drink_tags_filter tags)]
     @ (if tags_of pf \<noteq> [] then [Match (Fields [(''platforms'', Eq (VStr (tags_of pf)))])] else [])
     @ [Group [(''store_id'', ''$store_id''), (''platforms'', ''$platforms'')],
        Project [(''_id'', Excl), (''store_id'', Path ''$_id.store_id''),
                 (''platforms'', Path ''$_id.platforms'')]]"

text \<open>Phase 2 of \<^verbatim>\<open>_find_stores_with_drink_tags\<close>: the \<^verbatim>\<open>store\<close> pipeline.\<close>

definition tagged_store_pipeline :: "query \<Rightarrow> filter list \<Rightarrow> pipeline" where
  "tagged_store_pipeline q conds =
     [build_geospatial_filter (longitude q) (latitude q) (max_distance_km (distance_range q)),
      Match (build_store_filters (platform q) (rating_range q) (review_count_range q)),
      Match (Or conds)]
     @ brand_stages (brands q)
     @ [store_projection]"

text \<open>The pipeline of \<^verbatim>\<open>_find_stores_without_drink_filter\<close>.\<close>

definition plain_store_pipeline :: "query \<Rightarrow> pipeline" where
  "plain_store_pipeline q =
     [build_geospatial_filter (longitude q) (latitude q) (max_distance_km (distance_range q)),
      Match (build_store_filters (platform q) (rating_range q) (review_count_range q))]
     @ brand_stages (brands q)
     @ [store_projection]"

text \<open>The \<^verbatim>\<open>menu_item\<close> pipeline of \<^verbatim>\<open>_join_menu_data\<close>.\<close>

definition menu_pipeline :: "filter list \<Rightarrow> string list option \<Rightarrow> pipeline" where
  "menu_pipeline conds tags =
     (if tags_of tags \<noteq> []
      then [Match (build_drink_tags_filter (tags_of tags)), Match (Or conds), AddTextScore,
            Project [(''_id'', Excl), (''item_id'', Incl), (''store_id'', Incl), (''name'', Incl),
                     (''category'', Incl), (''description'', Incl), (''price'', Incl),
                     (''is_popular'', Incl), (''options'', Incl), (''text_score'', Incl)],
            SortTextScore]
      else [Match (Or conds),
            Project [(''_id'', Excl), (''item_id'', Incl), (''store_id'', Incl), (''name'', Incl),
                     (''category'', Incl), (''description'', Incl), (''price'', Incl),
                     (''is_popular'', Incl), (''options'', Incl)]])"

text \<open>
  One round of \<^verbatim>\<open>for item in menu_items\<close>: the item joins the list of its
  \<^verbatim>\<open>store_id\<close> in \<^verbatim>\<open>menu_index\<close>, and \<^verbatim>\<open>store_hit_counts\<close> counts it.
\<close>

definition index_item ::
  "doc \<Rightarrow> (val \<rightharpoonup> doc list) \<times> (val \<rightharpoonup> int) \<Rightarrow> exn + (val \<rightharpoonup> doc list) \<times> (val \<rightharpoonup> int)" where
  "index_item item st =
     (case map_of item ''store_id'' of
        None \<Rightarrow> Inl (KeyError ''store_id'')
      | Some key \<Rightarrow>
          if \<not> hashable key then Inl TypeError
          else
            (let (menu_index, store_hit_counts) = st;
                 (mi, hc) = (if menu_index key = None
                             then (menu_index(key \<mapsto> []), store_hit_counts(key \<mapsto> 0))
                             else (menu_index, store_hit_counts))
             in case mi key of
                  None \<Rightarrow> Inl (KeyError ''menu_index'')
                | Some l \<Rightarrow>
                    (case hc key of
                       None \<Rightarrow> Inl (KeyError ''store_hit_counts'')
                     | Some n \<Rightarrow> Inr (mi(key \<mapsto> l @ [item]), hc(key \<mapsto> n + 1)))))"

fun build_menu_index ::
  "doc list \<Rightarrow> (val \<rightharpoonup> doc list) \<times> (val \<rightharpoonup> int) \<Rightarrow> exn + (val \<rightharpoonup> doc list) \<times> (val \<rightharpoonup> int)" where
  "build_menu_index [] st = Inr st"
| "build_menu_index (item # items) st =
     (case index_item item st of
        Inl e \<Rightarrow> Inl e
      | Inr st' \<Rightarrow> build_menu_index items st')"

text \<open>
  The loop \<^verbatim>\<open>for store in stores\<close> of \<^verbatim>\<open>_join_menu_data\<close>: the copy of the store gets
  its \<^verbatim>\<open>menu\<close> and, when tags are given, its \<^verbatim>\<open>hit_count\<close>.
\<close>

fun attach_menus ::
  "(val \<rightharpoonup> doc list) \<Rightarrow> (val \<rightharpoonup> int) \<Rightarrow> bool \<Rightarrow> doc list \<Rightarrow> exn + doc list" where
  "attach_menus mi hc tagged [] = Inr []"
| "attach_menus mi hc tagged (store # stores) =
     (case map_of store ''store_id'' of
        None \<Rightarrow> Inl (KeyError ''store_id'')
      | Some key \<Rightarrow>
          if \<not> hashable key then Inl TypeError
          else
            (let c1 = AList.update ''menu''
                        (VList (map VDoc (case mi key of None \<Rightarrow> [] | Some l \<Rightarrow> l))) store;
                 c2 = (if tagged
                       then AList.update ''hit_count''
                              (VNum (real_of_int (case hc key of None \<Rightarrow> 0 | Some n \<Rightarrow> n))) c1
                       else c1)
             in case attach_menus mi hc tagged stores of
                  Inl e \<Rightarrow> Inl e
                | Inr r \<Rightarrow> Inr (c2 # r)))"

text \<open>
  The sort key \<^verbatim>\<open>x.get("hit_count", 0)\<close>. The entry was assigned from the counter just
  before, so it is a number.
\<close>

definition hit_key :: "doc \<Rightarrow> real" where
  "hit_key x = (case map_of x ''hit_count'' of None \<Rightarrow> 0 | Some v \<Rightarrow> num_of v)"

text \<open>\<^verbatim>\<open>_join_menu_data(stores, drink_tags, database_name)\<close>.\<close>

definition join_menu_data ::
  "db \<Rightarrow> doc list \<Rightarrow> string list option \<Rightarrow> qlog \<Rightarrow> (exn + doc list) \<times> qlog" where
  "join_menu_data db stores tags qs =
     (if stores = [] then (Inr [], qs)
      else
        (case store_conditions stores of
           Inl e \<Rightarrow> (Inl e, qs)
         | Inr conds \<Rightarrow>
             (case aggregate db ''menu_item'' (menu_pipeline conds tags) qs of
                (Inl e, qs1) \<Rightarrow> (Inl e, qs1)
              | (Inr menu_items, qs1) \<Rightarrow>
                  (case build_menu_index menu_items (Map.empty, Map.empty) of
                     Inl e \<Rightarrow> (Inl e, qs1)
                   | Inr (menu_index, store_hit_counts) \<Rightarrow>
                       (case attach_menus menu_index store_hit_counts (tags_of tags \<noteq> []) stores of
                          Inl e \<Rightarrow> (Inl e, qs1)
                        | Inr result \<Rightarrow>
                            if tags_of tags \<noteq> []
                            then (Inr (map (AList.delete ''hit_count'') (sort_desc hit_key result)), qs1)
                            else (Inr result, qs1))))))"

text \<open>\<^verbatim>\<open>_find_stores_with_drink_tags\<close>, called with a non-empty tag list.\<close>

definition find_stores_with_drink_tags ::
  "db \<Rightarrow> query \<Rightarrow> string list \<Rightarrow> qlog \<Rightarrow> (exn + doc list) \<times> qlog" where
  "find_stores_with_drink_tags db q tags qs =
     (case aggregate db ''menu_item'' (matching_pipeline tags (platform q)) qs of
        (Inl e, qs1) \<Rightarrow> (Inl e, qs1)
      | (Inr matching_stores, qs1) \<Rightarrow>
          if matching_stores = [] then (Inr [], qs1)
          else
            (case store_conditions matching_stores of
               Inl e \<Rightarrow> (Inl e, qs1)
             | Inr conds \<Rightarrow>
                 (case aggregate db ''store'' (tagged_store_pipeline q conds) qs1 of
                    (Inl e, qs2) \<Rightarrow> (Inl e, qs2)
                  | (Inr stores, qs2) \<Rightarrow>
                      if stores = [] then (Inr [], qs2)
                      else join_menu_data db stores (Some tags) qs2)))"

text \<open>\<^verbatim>\<open>_find_stores_without_drink_filter\<close>.\<close>

definition find_stores_without_drink_filter ::
  "db \<Rightarrow> query \<Rightarrow> qlog \<Rightarrow> (exn + doc list) \<times> qlog" where
  "find_stores_without_drink_filter db q qs =
     (case aggregate db ''store'' (plain_store_pipeline q) qs of
        (Inl e, qs1) \<Rightarrow> (Inl e, qs1)
      | (Inr stores, qs1) \<Rightarrow>
          if stores = [] then (Inr [], qs1)
          else join_menu_data db stores None qs1)"

text \<open>\<^verbatim>\<open>find_drink_stores_with_menu\<close>: \<^verbatim>\<open>if drink_tags:\<close> chooses the strategy.\<close>

definition find_drink_stores_with_menu :: "db \<Rightarrow> query \<Rightarrow> qlog \<Rightarrow> (exn + doc list) \<times> qlog" where
  "find_drink_stores_with_menu db q qs =
     (if tags_of (drink_tags q) \<noteq> []
      then find_stores_with_drink_tags db q (tags_of (drink_tags q)) qs
      else find_stores_without_drink_filter db q qs)"

subsection \<open>What a \<^verbatim>\<open>$match\<close> stage admits\<close>

text \<open>
  The query semantics of the external store, for the operators the properties below
  depend on: equality on a field, \<^verbatim>\<open>$gte\<close> on a number, the conjunction of the fields
  of one query document and \<^verbatim>\<open>$or\<close>, on scalar fields. The text search (\<open>txt\<close>) and the
  remaining conditions (\<open>ext\<close>: ranges on dotted paths, regular expressions) are
  parameters.
\<close>

fun field_sat :: "(string \<Rightarrow> cond \<Rightarrow> doc \<Rightarrow> bool) \<Rightarrow> string \<Rightarrow> cond \<Rightarrow> doc \<Rightarrow> bool" where
  "field_sat ext k (Eq v) d = (map_of d k = Some v)"
| "field_sat ext k (Gte v) d =
     (case map_of d k of Some (VNum a) \<Rightarrow> is_num v \<and> num_of v \<le> a | _ \<Rightarrow> False)"
| "field_sat ext k c d = ext k c d"

fun sat ::
  "(string \<Rightarrow> doc \<Rightarrow> bool) \<Rightarrow> (string \<Rightarrow> cond \<Rightarrow> doc \<Rightarrow> bool) \<Rightarrow> filter \<Rightarrow> doc \<Rightarrow> bool" where
  "sat txt ext ExprTrue d = True"
| "sat txt ext (Text s) d = txt s d"
| "sat txt ext (Fields fs) d = list_all (\<lambda>(k, c). field_sat ext k c d) fs"
| "sat txt ext (Or fs) d = list_ex (\<lambda>f. sat txt ext f d) fs"

text \<open>
  A database honours the stage \<^verbatim>\<open>{"$match": f}\<close> on a collection when every document
  of its answer to a pipeline with that stage satisfies \<open>f\<close>. (The pipelines of this
  engine project the fields they match on unchanged.)
\<close>

definition honours_match ::
  "(string \<Rightarrow> doc \<Rightarrow> bool) \<Rightarrow> (string \<Rightarrow> cond \<Rightarrow> doc \<Rightarrow> bool) \<Rightarrow> db \<Rightarrow> string \<Rightarrow> filter
   \<Rightarrow> bool" where
  "honours_match txt ext db coll f =
     (\<forall>pl docs. db coll pl = Inr docs \<and> Match f \<in> set pl
        \<longrightarrow> (\<forall>d \<in> set docs. sat txt ext f d))"

text \<open>The number of documents of \<open>items\<close> with the \<^verbatim>\<open>store_id\<close> of the store \<open>d\<close>.\<close>

definition store_hits :: "doc list \<Rightarrow> doc \<Rightarrow> nat" where
  "store_hits items d = length (filter (\<lambda>i. map_of i ''store_id'' = map_of d ''store_id'') items)"

text \<open>
  The index \<^verbatim>\<open>_join_menu_data\<close> is meant to build, said directly: under a
  \<^verbatim>\<open>store_id\<close>, the items that carry it, in their order, and their number; no entry
  for a \<^verbatim>\<open>store_id\<close> no item carries.
\<close>

definition items_of :: "doc list \<Rightarrow> val \<Rightarrow> doc list" where
  "items_of items k = filter (\<lambda>i. map_of i ''store_id'' = Some k) items"

definition index_of :: "doc list \<Rightarrow> (val \<rightharpoonup> doc list) \<times> (val \<rightharpoonup> int)" where
  "index_of items =
     (\<lambda>k. if items_of items k = [] then None else Some (items_of items k),
      \<lambda>k. if items_of items k = [] then None else Some (int (length (items_of items k))))"

section \<open>The driver container\<close>

text \<open>
  \<^verbatim>\<open>api/app/driver/base.py\<close>. A reference is \<^verbatim>\<open>None\<close> or an object. A driver is an
  external collaborator: each of its three methods acts on the outside world \<open>'w\<close> and
  returns or raises. The container records the driver calls it makes in \<open>calls\<close>.
\<close>

datatype 'i ref = NoneRef | Ref 'i

record ('i, 'w) driver =
  initialize :: "doc \<Rightarrow> 'w \<Rightarrow> (exn + 'i ref) \<times> 'w"
  cleanup :: "'i ref \<Rightarrow> 'w \<Rightarrow> (exn + unit) \<times> 'w"
  health_check :: "'i ref \<Rightarrow> 'w \<Rightarrow> (exn + bool) \<times> 'w"

datatype 'i call =
    Initialize string
  | Cleanup string "'i ref"
  | HealthCheck string "'i ref"

text \<open>
  The fields of \<^verbatim>\<open>DriverContainer\<close>: \<open>config\<close> maps a driver name to its option
  dictionary, \<open>app_state\<close> is \<^verbatim>\<open>None\<close> or the attributes of the shared state object,
  \<open>instances\<close> is the local cache \<^verbatim>\<open>_instances\<close> in insertion order, \<open>locks\<close> the names
  that have a lock in \<^verbatim>\<open>_locks\<close>.
\<close>

record ('i, 'w) container =
  config :: "string \<rightharpoonup> doc"
  app_state :: "(string \<rightharpoonup> 'i ref) option"
  instances :: "(string \<times> 'i ref) list"
  drivers :: "string \<rightharpoonup> ('i, 'w) driver"
  locks :: "string set"
  world :: 'w
  calls :: "'i call list"

text \<open>\<^verbatim>\<open>__init__\<close> with \<^verbatim>\<open>_register_default_drivers\<close>: three drivers, a lock for each.\<close>

definition new_container ::
  "(string \<rightharpoonup> doc) \<Rightarrow> (string \<rightharpoonup> 'i ref) option \<Rightarrow> ('i, 'w) driver \<Rightarrow> ('i, 'w) driver
   \<Rightarrow> ('i, 'w) driver \<Rightarrow> 'w \<Rightarrow> ('i, 'w) container" where
  "new_container cfg st httpx_driver storage_driver mongo_driver w =
     \<lparr>config = cfg, app_state = st, instances = [],
      drivers = [''httpx'' \<mapsto> httpx_driver, ''storage'' \<mapsto> storage_driver, ''mongo'' \<mapsto> mongo_driver],
      locks = {''httpx'', ''storage'', ''mongo''}, world = w, calls = []\<rparr>"

text \<open>\<^verbatim>\<open>register_driver(name, driver)\<close>.\<close>

definition register_driver ::
  "('i, 'w) container \<Rightarrow> string \<Rightarrow> ('i, 'w) driver \<Rightarrow> ('i, 'w) container" where
  "register_driver c name d = c\<lparr>drivers := (drivers c)(name \<mapsto> d), locks := insert name (locks c)\<rparr>"

text \<open>
  \<^verbatim>\<open>_get_from_app_state(name)\<close>: the first attribute among the four names that exists
  and is not \<^verbatim>\<open>None\<close>; \<^verbatim>\<open>None\<close> when there is no such attribute or no state object.
\<close>

definition possible_names :: "string \<Rightarrow> string list" where
  "possible_names name =
     [name, name @ ''_driver'', ''async_'' @ name @ ''_driver'', name @ ''_pool'']"

fun first_instance :: "(string \<rightharpoonup> 'i ref) \<Rightarrow> string list \<Rightarrow> 'i ref" where
  "first_instance st [] = NoneRef"
| "first_instance st (attr_name # rest) =
     (case st attr_name of
        Some (Ref i) \<Rightarrow> Ref i
      | _ \<Rightarrow> first_instance st rest)"

definition get_from_app_state :: "('i, 'w) container \<Rightarrow> string \<Rightarrow> 'i ref" where
  "get_from_app_state c name =
     (case app_state c of
        None \<Rightarrow> NoneRef
      | Some st \<Rightarrow> first_instance st (possible_names name))"

text \<open>\<^verbatim>\<open>_store_to_app_state(name, instance)\<close>.\<close>

definition store_to_app_state ::
  "('i, 'w) container \<Rightarrow> string \<Rightarrow> 'i ref \<Rightarrow> ('i, 'w) container" where
  "store_to_app_state c name inst =
     (case app_state c of
        None \<Rightarrow> c
      | Some st \<Rightarrow>
          c\<lparr>app_state :=
              Some (st((if name = ''mysql'' then name @ ''_pool'' else name @ ''_driver'') \<mapsto> inst))\<rparr>)"

text \<open>
  \<^verbatim>\<open>get_instance(name)\<close>, one call run from start to end: the lock of the name is free
  when the call takes it and free again when the call returns or raises, so only its
  existence in \<^verbatim>\<open>_locks\<close> shows. \<^verbatim>\<open>getattr(self.config, name, {})\<close> is the configuration.
\<close>

definition get_instance ::
  "('i, 'w) container \<Rightarrow> string \<Rightarrow> (exn + 'i ref) \<times> ('i, 'w) container" where
  "get_instance c name =
     (case drivers c name of
        None \<Rightarrow> (Inl (ValueError (''Driver '' @ name @ '' not registered'')), c)
      | Some d \<Rightarrow>
          if get_from_app_state c name \<noteq> NoneRef then (Inr (get_from_app_state c name), c)
          else
            (case map_of (instances c) name of
               Some inst \<Rightarrow> (Inr inst, c)
             | None \<Rightarrow>
                 if name \<notin> locks c then (Inl (KeyError name), c)
                 else if get_from_app_state c name \<noteq> NoneRef
                 then (Inr (get_from_app_state c name), c)
                 else
                   (case map_of (instances c) name of
                      Some inst \<Rightarrow> (Inr inst, c)
                    | None \<Rightarrow>
                        (let driver_config = (case config c name of None \<Rightarrow> [] | Some cf \<Rightarrow> cf);
                             (r, w') = initialize d driver_config (world c);
                             c1 = c\<lparr>world := w', calls := calls c @ [Initialize name]\<rparr>
                         in case r of
                              Inl e \<Rightarrow> (Inl e, c1)
                            | Inr inst \<Rightarrow>
                                (Inr inst,
                                 store_to_app_state
                                   (c1\<lparr>instances := AList.update name inst (instances c1)\<rparr>)
                                   name inst)))))"

text \<open>
  \<^verbatim>\<open>_cleanup_instance(name, instance)\<close>: the driver's \<^verbatim>\<open>cleanup\<close> in a
  \<^verbatim>\<open>try ... except Exception\<close> that logs and returns.
\<close>

definition cleanup_instance ::
  "string \<Rightarrow> 'i ref \<Rightarrow> ('i, 'w) container \<Rightarrow> (exn + unit) \<times> ('i, 'w) container" where
  "cleanup_instance name inst c =
     (case drivers c name of
        None \<Rightarrow> (Inr (), c)
      | Some d \<Rightarrow>
          (let (r, w') = cleanup d inst (world c);
               c1 = c\<lparr>world := w', calls := calls c @ [Cleanup name inst]\<rparr>
           in case r of
                Inl e \<Rightarrow> (Inr (), c1)
              | Inr u \<Rightarrow> (Inr (), c1)))"

text \<open>
  \<^verbatim>\<open>asyncio.gather(*cleanup_tasks, return_exceptions=True)\<close>: every task runs, and what
  a task returns or raises becomes an entry of the result list. The tasks run here in
  the order they were handed over.
\<close>

fun gather ::
  "(string \<times> 'i ref) list \<Rightarrow> ('i, 'w) container \<Rightarrow> (exn + unit) list \<times> ('i, 'w) container" where
  "gather [] c = ([], c)"
| "gather ((name, inst) # tasks) c =
     (case cleanup_instance name inst c of
        (r, c1) \<Rightarrow> (case gather tasks c1 of (rs, c2) \<Rightarrow> (r # rs, c2)))"

text \<open>\<^verbatim>\<open>cleanup_all()\<close>.\<close>

definition cleanup_all :: "('i, 'w) container \<Rightarrow> (exn + unit) \<times> ('i, 'w) container" where
  "cleanup_all c =
     (let cleanup_tasks = filter (\<lambda>(name, inst). name \<in> dom (drivers c)) (instances c);
          (results, c1) = (if cleanup_tasks \<noteq> [] then gather cleanup_tasks c else ([], c))
      in (Inr (), c1\<lparr>instances := []\<rparr>))"

text \<open>\<^verbatim>\<open>health_check_all()\<close>: the loop, with the status dictionary built so far.\<close>

fun health_checks ::
  "(string \<times> 'i ref) list \<Rightarrow> (string \<times> bool) list \<Rightarrow> ('i, 'w) container
   \<Rightarrow> (string \<times> bool) list \<times> ('i, 'w) container" where
  "health_checks [] health_status c = (health_status, c)"
| "health_checks ((name, inst) # rest) health_status c =
     (case drivers c name of
        None \<Rightarrow> health_checks rest health_status c
      | Some d \<Rightarrow>
          (let (r, w') = health_check d inst (world c);
               c1 = c\<lparr>world := w', calls := calls c @ [HealthCheck name inst]\<rparr>;
               is_healthy = (case r of Inl e \<Rightarrow> False | Inr b \<Rightarrow> b)
           in health_checks rest (AList.update name is_healthy health_status) c1))"

definition health_check_all ::
  "('i, 'w) container \<Rightarrow> (string \<times> bool) list \<times> ('i, 'w) container" where
  "health_check_all c = health_checks (instances c) [] c"

text \<open>
  The invariant of the container: a cached instance belongs to a registered driver, and
  a registered driver has a lock.
\<close>

definition container_ok :: "('i, 'w) container \<Rightarrow> bool" where
  "container_ok c = (fst ` set (instances c) \<subseteq> dom (drivers c) \<and> dom (drivers c) \<subseteq> locks c)"

section \<open>Example collaborators\<close>

text \<open>
  Concrete drivers, containers and a database, on which the properties below are run.
  \<open>flaky_driver\<close> fails to initialize in world 0 and always fails to clean up and to
  check; \<open>steady_driver\<close> always succeeds.
\<close>

definition flaky_driver :: "nat \<Rightarrow> (nat, nat) driver" where
  "flaky_driver k =
     \<lparr>initialize = (\<lambda>cfg w. (if w = 0 then Inl (External k) else Inr (Ref k), w + 1)),
      cleanup = (\<lambda>i w. (Inl (External k), w)),
      health_check = (\<lambda>i w. (Inl (External k), w))\<rparr>"

definition steady_driver :: "nat \<Rightarrow> (nat, nat) driver" where
  "steady_driver k =
     \<lparr>initialize = (\<lambda>cfg w. (Inr (Ref k), w)),
      cleanup = (\<lambda>i w. (Inr (), w)),
      health_check = (\<lambda>i w. (Inr True, w))\<rparr>"

definition fresh_container :: "(string \<rightharpoonup> nat ref) option \<Rightarrow> nat \<Rightarrow> (nat, nat) container" where
  "fresh_container st w =
     new_container Map.empty st (flaky_driver 1) (steady_driver 2) (steady_driver 3) w"

text \<open>
  A driver whose \<^verbatim>\<open>cleanup\<close> leaves its mark \<open>k\<close> in the world, a list of marks, and
  then raises when \<open>fails\<close> is set; and a container with no shared state, after
  \<^verbatim>\<open>get_instance\<close> for two names, the first with a failing \<^verbatim>\<open>cleanup\<close>.
\<close>

definition marking_driver :: "nat \<Rightarrow> bool \<Rightarrow> (nat, nat list) driver" where
  "marking_driver k fails =
     \<lparr>initialize = (\<lambda>cfg w. (Inr (Ref k), w)),
      cleanup = (\<lambda>i w. (if fails then Inl (External k) else Inr (), w @ [k])),
      health_check = (\<lambda>i w. (Inr (\<not> fails), w))\<rparr>"

definition marked_container :: "(nat, nat list) container" where
  "marked_container =
     snd (get_instance
            (snd (get_instance
                    (new_container Map.empty None (marking_driver 1 True) (marking_driver 2 False)
                       (marking_driver 3 False) [])
                    ''httpx''))
            ''mongo'')"


text \<open>
  A database that answers with the documents of the collection that satisfy every
  \<^verbatim>\<open>$match\<close> stage of the pipeline, where the text search and the conditions left
  open admit every document.
\<close>

definition any_text :: "string \<Rightarrow> doc \<Rightarrow> bool" where
  "any_text s d = True"

definition any_cond :: "string \<Rightarrow> cond \<Rightarrow> doc \<Rightarrow> bool" where
  "any_cond k c d = True"

fun stage_admits :: "stage \<Rightarrow> doc \<Rightarrow> bool" where
  "stage_admits (Match f) d = sat any_text any_cond f d"
| "stage_admits _ d = True"

definition matching_db :: "(string \<Rightarrow> doc list) \<Rightarrow> db" where
  "matching_db content coll pl =
     Inr (filter (\<lambda>d. list_all (\<lambda>st. stage_admits st d) pl) (content coll))"

definition tea_shop :: "string \<Rightarrow> doc list" where
  "tea_shop coll =
     (if coll = ''store''
      then [[(''store_id'', VStr ''b''), (''name'', VStr ''Bubble B''), (''brand'', VStr ''B''),
             (''source_url'', VStr ''https://b'')],
            [(''store_id'', VStr ''a''), (''name'', VStr ''Assam A''), (''brand'', VStr ''A''),
             (''source_url'', VStr ''https://a'')]]
      else if coll = ''menu_item''
      then [[(''item_id'', VNum 1), (''store_id'', VStr ''a''), (''price'', VNum 45),
             (''text_score'', VNum 1)],
            [(''item_id'', VNum 2), (''store_id'', VStr ''b''), (''price'', VNum 30),
             (''text_score'', VNum 2)],
            [(''item_id'', VNum 3), (''store_id'', VStr ''a''), (''price'', VNum 60),
             (''text_score'', VNum 3)],
            [(''item_id'', VNum 4), (''store_id'', VStr ''a''), (''price'', VNum 10),
             (''text_score'', VNum 4)],
            [(''item_id'', VNum 5), (''store_id'', VStr ''a''), (''platforms'', VStr ''foodpanda''),
             (''price'', VNum 50), (''text_score'', VNum 5)]]
      else [])"

definition tea_query :: "string list option \<Rightarrow> string option \<Rightarrow> query" where
  "tea_query tags pf =
     \<lparr>longitude = 121.5, latitude = 25, drink_tags = tags, brands = None,
      review_count_range = None, rating_range = None, distance_range = None,
      platform = pf, limit = Some 100\<rparr>"

text \<open>One store id on two platforms: the menu item is on one, the store document on the other.\<close>

definition two_platforms :: "string \<Rightarrow> doc list" where
  "two_platforms coll =
     (if coll = ''menu_item''
      then [[(''item_id'', VNum 1), (''store_id'', VStr ''a''), (''platforms'', VStr ''ubereats'')]]
      else if coll = ''store''
      then [[(''store_id'', VStr ''a''), (''platforms'', VStr ''foodpanda''),
             (''name'', VStr ''Assam A'')]]
      else [])"

text \<open>
  A database that runs the stages in order: \<^verbatim>\<open>$match\<close> keeps the documents that satisfy
  the filter, \<^verbatim>\<open>$project\<close> keeps the fields the projection includes (the computed
  distance fields are left out), \<^verbatim>\<open>$limit\<close> cuts the list; the other stages pass the
  documents on.
\<close>

definition apply_project :: "(string \<times> proj) list \<Rightarrow> doc \<Rightarrow> doc" where
  "apply_project ps d = filter (\<lambda>(k, v). map_of ps k = Some Incl) d"

fun run_stage :: "stage \<Rightarrow> doc list \<Rightarrow> doc list" where
  "run_stage (Match f) ds = filter (sat any_text any_cond f) ds"
| "run_stage (Project ps) ds = map (apply_project ps) ds"
| "run_stage (Limit n) ds = take (nat n) ds"
| "run_stage _ ds = ds"

definition projecting_db :: "(string \<Rightarrow> doc list) \<Rightarrow> db" where
  "projecting_db content coll pl = Inr (fold run_stage pl (content coll))"

text \<open>
  Documents with the fields of \<^verbatim>\<open>StoreDoc\<close> and \<^verbatim>\<open>MenuItemDoc\<close> in
  \<^verbatim>\<open>schema/db.py\<close>: the store \<^verbatim>\<open>a\<close> of \<^verbatim>\<open>ubereats\<close>, and a menu item of the store
  \<^verbatim>\<open>a\<close> of \<^verbatim>\<open>foodpanda\<close>.
\<close>

definition platform_shop :: "string \<Rightarrow> doc list" where
  "platform_shop coll =
     (if coll = ''store''
      then [[(''store_id'', VStr ''a''), (''platform'', VStr ''ubereats''),
             (''name'', VStr ''Assam A''), (''brand'', VStr ''A''),
             (''source_url'', VStr ''https://www.ubereats.com/tw/store/a'')]]
      else if coll = ''menu_item''
      then [[(''item_id'', VNum 1), (''store_id'', VStr ''a''), (''platform'', VStr ''foodpanda''),
             (''name'', VStr ''Milk tea''), (''price'', VNum 50)]]
      else [])"

section \<open>Properties of the driver container\<close>

subsection \<open>What each operation leaves alone\<close>

lemma store_to_app_state_fields [simp]:
  "instances (store_to_app_state c n i) = instances c"
  "drivers (store_to_app_state c n i) = drivers c"
  "locks (store_to_app_state c n i) = locks c"
  "calls (store_to_app_state c n i) = calls c"
  "world (store_to_app_state c n i) = world c"
  "config (store_to_app_state c n i) = config c"
  by (simp_all add: store_to_app_state_def split: option.splits)

lemma cleanup_instance_fields:
  "fst (cleanup_instance n i c) = Inr ()"
  "drivers (snd (cleanup_instance n i c)) = drivers c"
  "locks (snd (cleanup_instance n i c)) = locks c"
  "instances (snd (cleanup_instance n i c)) = instances c"
  "app_state (snd (cleanup_instance n i c)) = app_state c"
  "calls (snd (cleanup_instance n i c)) =
     calls c @ (if n \<in> dom (drivers c) then [Cleanup n i] else [])"
  by (auto simp: cleanup_instance_def Let_def split: option.splits prod.splits sum.splits)

lemma gather_fields:
  "drivers (snd (gather tasks c)) = drivers c \<and>
   locks (snd (gather tasks c)) = locks c \<and>
   instances (snd (gather tasks c)) = instances c \<and>
   app_state (snd (gather tasks c)) = app_state c \<and>
   list_all (\<lambda>r. r = Inr ()) (fst (gather tasks c)) \<and>
   calls (snd (gather tasks c)) =
     calls c @ map (\<lambda>(n, i). Cleanup n i) (filter (\<lambda>(n, i). n \<in> dom (drivers c)) tasks)"
proof (induction tasks arbitrary: c)
  case Nil
  show ?case by simp
next
  case (Cons t tasks)
  obtain n i where t: "t = (n, i)" by (cases t)
  obtain r c1 where r: "cleanup_instance n i c = (r, c1)" by (cases "cleanup_instance n i c")
  from cleanup_instance_fields [of n i c] r
  have c1: "r = Inr ()" "drivers c1 = drivers c" "locks c1 = locks c" "instances c1 = instances c"
    "app_state c1 = app_state c"
    "calls c1 = calls c @ (if n \<in> dom (drivers c) then [Cleanup n i] else [])"
    by simp_all
  obtain rs c2 where g: "gather tasks c1 = (rs, c2)" by (cases "gather tasks c1")
  from Cons.IH [of c1] g c1
  show ?case by (simp add: t r)
qed

lemma cleanup_all_fields:
  "fst (cleanup_all c) = Inr () \<and> instances (snd (cleanup_all c)) = [] \<and>
   drivers (snd (cleanup_all c)) = drivers c \<and> locks (snd (cleanup_all c)) = locks c \<and>
   app_state (snd (cleanup_all c)) = app_state c \<and>
   calls (snd (cleanup_all c)) =
     calls c @ map (\<lambda>(n, i). Cleanup n i) (filter (\<lambda>(n, i). n \<in> dom (drivers c)) (instances c))"
proof -
  define tasks where "tasks = filter (\<lambda>(n, i). n \<in> dom (drivers c)) (instances c)"
  obtain rs c1 where g: "gather tasks c = (rs, c1)" by (cases "gather tasks c")
  have "filter (\<lambda>(n, i). n \<in> dom (drivers c)) tasks = tasks"
    by (simp add: tasks_def)
  with gather_fields [of tasks c] g
  have "drivers c1 = drivers c" "locks c1 = locks c" "app_state c1 = app_state c"
    "calls c1 = calls c @ map (\<lambda>(n, i). Cleanup n i) tasks"
    by simp_all
  then show ?thesis
    unfolding cleanup_all_def Let_def tasks_def [symmetric]
    by (cases "tasks = []") (simp_all add: g)
qed


lemma cleanup_instance_world:
  "world (snd (cleanup_instance n i c))
     = (case drivers c n of None \<Rightarrow> world c | Some d \<Rightarrow> snd (cleanup d i (world c)))"
  by (auto simp: cleanup_instance_def Let_def split: option.splits prod.splits sum.splits)

lemma gather_world:
  "world (snd (gather tasks c))
     = fold (\<lambda>(n, i) w. case drivers c n of None \<Rightarrow> w | Some d \<Rightarrow> snd (cleanup d i w))
         tasks (world c)"
proof (induction tasks arbitrary: c)
  case Nil
  show ?case by simp
next
  case (Cons t tasks)
  obtain n i where t: "t = (n, i)" by (cases t)
  obtain r c1 where r: "cleanup_instance n i c = (r, c1)" by (cases "cleanup_instance n i c")
  from cleanup_instance_fields(2) [of n i c] cleanup_instance_world [of n i c] r
  have c1: "drivers c1 = drivers c"
    "world c1 = (case drivers c n of None \<Rightarrow> world c | Some d \<Rightarrow> snd (cleanup d i (world c)))"
    by simp_all
  obtain rs c2 where g: "gather tasks c1 = (rs, c2)" by (cases "gather tasks c1")
  from Cons.IH [of c1] g c1
  show ?case by (simp add: t r)
qed

lemma cleanup_all_world:
  "world (snd (cleanup_all c))
     = fold (\<lambda>(n, i) w. case drivers c n of None \<Rightarrow> w | Some d \<Rightarrow> snd (cleanup d i w))
         (filter (\<lambda>(n, i). n \<in> dom (drivers c)) (instances c)) (world c)"
proof -
  define tasks where "tasks = filter (\<lambda>(n, i). n \<in> dom (drivers c)) (instances c)"
  obtain rs c1 where g: "gather tasks c = (rs, c1)" by (cases "gather tasks c")
  from gather_world [of tasks c] g
  have "world c1
     = fold (\<lambda>(n, i) w. case drivers c n of None \<Rightarrow> w | Some d \<Rightarrow> snd (cleanup d i w))
         tasks (world c)"
    by simp
  then show ?thesis
    unfolding cleanup_all_def Let_def tasks_def [symmetric]
    by (cases "tasks = []") (simp_all add: g)
qed

lemma filter_registered:
  assumes "fst ` set xs \<subseteq> dom m"
  shows "filter (\<lambda>(n, i). n \<in> dom m) xs = xs"
  using assms by (induction xs) auto

lemma update_keys_set: "fst ` set (AList.update k v al) = insert k (fst ` set al)"
  by (induction al) auto

subsection \<open>The invariant holds from the start and every operation keeps it\<close>

lemma new_container_ok: "container_ok (new_container cfg st d1 d2 d3 w)"
  by (simp add: container_ok_def new_container_def)

lemma register_driver_ok: "container_ok c \<Longrightarrow> container_ok (register_driver c name d)"
  by (auto simp: container_ok_def register_driver_def)

lemma get_instance_ok:
  assumes "container_ok c"
  shows "container_ok (snd (get_instance c name))"
proof (cases "drivers c name")
  case None
  with assms show ?thesis by (simp add: get_instance_def)
next
  case (Some d)
  obtain r w' where
    r: "initialize d (case config c name of None \<Rightarrow> [] | Some cf \<Rightarrow> cf) (world c) = (r, w')"
    by (cases "initialize d (case config c name of None \<Rightarrow> [] | Some cf \<Rightarrow> cf) (world c)")
  from assms Some show ?thesis
    by (cases r)
      (auto simp: get_instance_def container_ok_def r update_keys_set split: option.splits)
qed

lemma cleanup_all_ok: "container_ok c \<Longrightarrow> container_ok (snd (cleanup_all c))"
  using cleanup_all_fields [of c] by (simp add: container_ok_def)

lemma health_checks_fields:
  "drivers (snd (health_checks insts hs c)) = drivers c \<and>
   locks (snd (health_checks insts hs c)) = locks c \<and>
   instances (snd (health_checks insts hs c)) = instances c"
proof (induction insts arbitrary: hs c)
  case Nil
  show ?case by simp
next
  case (Cons t insts)
  obtain n i where t: "t = (n, i)" by (cases t)
  show ?case
  proof (cases "drivers c n")
    case None
    with Cons.IH [of hs c] show ?thesis by (simp add: t)
  next
    case (Some d)
    obtain r w' where r: "health_check d i (world c) = (r, w')"
      by (cases "health_check d i (world c)")
    from Cons.IH [of "AList.update n (case r of Inl e \<Rightarrow> False | Inr b \<Rightarrow> b) hs"
        "c\<lparr>world := w', calls := calls c @ [HealthCheck n i]\<rparr>"] Some
    show ?thesis by (simp add: t r)
  qed
qed

lemma health_check_all_ok: "container_ok c \<Longrightarrow> container_ok (snd (health_check_all c))"
  using health_checks_fields [of "instances c" "[]" c]
  by (simp add: container_ok_def health_check_all_def)

subsection \<open>The example containers\<close>

lemma marked_container_eq:
  "marked_container =
     (new_container Map.empty None (marking_driver 1 True) (marking_driver 2 False)
        (marking_driver 3 False) [])
     \<lparr>instances := [(''httpx'', Ref 1), (''mongo'', Ref 3)],
      calls := [Initialize ''httpx'', Initialize ''mongo'']\<rparr>"
  by (simp add: marked_container_def new_container_def get_instance_def
      get_from_app_state_def store_to_app_state_def marking_driver_def)


subsection \<open>\<^verbatim>\<open>cleanup_all\<close>\<close>

text \<open>
  C7. In a container that satisfies its invariant, \<^verbatim>\<open>cleanup_all\<close> does not raise and
  leaves the local cache empty. It has invoked the driver's \<^verbatim>\<open>cleanup\<close> on every cached
  instance, whatever the \<^verbatim>\<open>cleanup\<close> methods return or raise: the world it leaves is the
  world in which each cached instance's driver has run its \<^verbatim>\<open>cleanup\<close> on that
  instance, one after the other in cache order (every cached name has a driver), and the
  calls it records are exactly one \<open>Cleanup\<close> per cache entry.
\<close>

theorem cleanup_all_cleans_every_instance:
  assumes "container_ok c"
  shows "fst (cleanup_all c) = Inr ()
         \<and> instances (snd (cleanup_all c)) = []
         \<and> calls (snd (cleanup_all c)) = calls c @ map (\<lambda>(n, i). Cleanup n i) (instances c)
         \<and> world (snd (cleanup_all c))
             = fold (\<lambda>(n, i) w. case drivers c n of None \<Rightarrow> w | Some d \<Rightarrow> snd (cleanup d i w))
                 (instances c) (world c)
         \<and> (\<forall>(n, i) \<in> set (instances c). drivers c n \<noteq> None)"
proof -
  from assms have all: "filter (\<lambda>(n, i). n \<in> dom (drivers c)) (instances c) = instances c"
    by (simp add: container_ok_def filter_registered)
  from assms have "\<forall>(n, i) \<in> set (instances c). drivers c n \<noteq> None"
    by (auto simp: container_ok_def)
  with cleanup_all_fields [of c] cleanup_all_world [of c] all show ?thesis by simp
qed

text \<open>
  The scenario of the spec: the \<^verbatim>\<open>cleanup\<close> of \<^verbatim>\<open>httpx\<close> raises, the one of
  \<^verbatim>\<open>mongo\<close> still runs (both marks are in the world), and nothing is raised.
\<close>

theorem cleanup_all_cleans_every_instance_witness:
  "container_ok marked_container
   \<and> instances marked_container = [(''httpx'', Ref 1), (''mongo'', Ref 3)]
   \<and> world marked_container = []
   \<and> cleanup (marking_driver 1 True) (Ref 1) [] = (Inl (External 1), [1])
   \<and> cleanup (marking_driver 3 False) (Ref 3) [1] = (Inr (), [1, 3])
   \<and> fst (cleanup_all marked_container) = Inr ()
   \<and> instances (snd (cleanup_all marked_container)) = []
   \<and> calls (snd (cleanup_all marked_container)) =
       [Initialize ''httpx'', Initialize ''mongo'',
        Cleanup ''httpx'' (Ref 1), Cleanup ''mongo'' (Ref 3)]
   \<and> world (snd (cleanup_all marked_container)) = [1, 3]"
proof -
  have ok: "container_ok marked_container"
    by (simp add: container_ok_def marked_container_eq new_container_def)
  from cleanup_all_cleans_every_instance [OF ok] ok show ?thesis
    by (simp add: marked_container_eq new_container_def marking_driver_def)
qed

subsection \<open>A failed \<^verbatim>\<open>initialize\<close>\<close>

text \<open>
  C8. Let \<^verbatim>\<open>get_instance(name)\<close> reach \<^verbatim>\<open>initialize\<close> (the name is registered, neither
  the shared state nor the local cache has an instance for it) and let \<^verbatim>\<open>initialize\<close>
  raise \<open>e\<close>. Then the call raises \<open>e\<close>; the local cache and the shared state are what
  they were (only the world and the call record changed); and the next
  \<^verbatim>\<open>get_instance(name)\<close> calls \<^verbatim>\<open>initialize\<close> again.
\<close>

theorem failed_initialize_caches_nothing:
  assumes ok: "container_ok c"
    and reg: "drivers c name = Some d"
    and miss: "get_from_app_state c name = NoneRef" "map_of (instances c) name = None"
    and fail: "initialize d (case config c name of None \<Rightarrow> [] | Some cf \<Rightarrow> cf) (world c)
                 = (Inl e, w')"
  shows "get_instance c name = (Inl e, c\<lparr>world := w', calls := calls c @ [Initialize name]\<rparr>)
         \<and> instances (snd (get_instance c name)) = instances c
         \<and> app_state (snd (get_instance c name)) = app_state c
         \<and> calls (snd (get_instance (snd (get_instance c name)) name))
             = calls c @ [Initialize name, Initialize name]"
proof -
  let ?c1 = "c\<lparr>world := w', calls := calls c @ [Initialize name]\<rparr>"
  from ok reg have lock: "name \<in> locks c"
    by (auto simp: container_ok_def)
  have first: "get_instance c name = (Inl e, ?c1)"
    using reg miss fail lock by (simp add: get_instance_def)
  have miss1: "get_from_app_state ?c1 name = NoneRef"
    using miss(1) by (simp add: get_from_app_state_def)
  obtain r w2 where
    second: "initialize d (case config c name of None \<Rightarrow> [] | Some cf \<Rightarrow> cf) w' = (r, w2)"
    by (cases "initialize d (case config c name of None \<Rightarrow> [] | Some cf \<Rightarrow> cf) w'")
  have "calls (snd (get_instance ?c1 name)) = calls c @ [Initialize name, Initialize name]"
    using reg miss(2) miss1 lock second
    by (cases r) (simp_all add: get_instance_def)
  with first show ?thesis by simp
qed

theorem failed_initialize_caches_nothing_witness:
  "container_ok (fresh_container (Some Map.empty) 0)
   \<and> get_instance (fresh_container (Some Map.empty) 0) ''httpx''
       = (Inl (External 1),
          (fresh_container (Some Map.empty) 0)\<lparr>world := 1, calls := [Initialize ''httpx'']\<rparr>)
   \<and> instances (snd (get_instance (fresh_container (Some Map.empty) 0) ''httpx'')) = []
   \<and> app_state (snd (get_instance (fresh_container (Some Map.empty) 0) ''httpx'')) = Some Map.empty
   \<and> calls (snd (get_instance (snd (get_instance (fresh_container (Some Map.empty) 0) ''httpx''))
                   ''httpx''))
       = [Initialize ''httpx'', Initialize ''httpx'']"
proof -
  let ?c = "fresh_container (Some Map.empty) 0"
  have ok: "container_ok ?c"
    by (simp add: fresh_container_def new_container_ok)
  have reg: "drivers ?c ''httpx'' = Some (flaky_driver 1)"
    by (simp add: fresh_container_def new_container_def)
  have miss: "get_from_app_state ?c ''httpx'' = NoneRef" "map_of (instances ?c) ''httpx'' = None"
    by (simp_all add: fresh_container_def new_container_def get_from_app_state_def
        possible_names_def)
  have fail: "initialize (flaky_driver 1) (case config ?c ''httpx'' of None \<Rightarrow> [] | Some cf \<Rightarrow> cf)
                (world ?c) = (Inl (External 1), 1)"
    by (simp add: fresh_container_def new_container_def flaky_driver_def)
  have start: "calls ?c = []" "instances ?c = []" "app_state ?c = Some Map.empty"
    by (simp_all add: fresh_container_def new_container_def)
  note th = failed_initialize_caches_nothing [OF ok reg miss fail]
  have 1: "get_instance ?c ''httpx''
             = (Inl (External 1), ?c\<lparr>world := 1, calls := [Initialize ''httpx'']\<rparr>)"
    using th [THEN conjunct1] start by simp
  have 2: "instances (snd (get_instance ?c ''httpx'')) = []"
    using th [THEN conjunct2, THEN conjunct1] start by simp
  have 3: "app_state (snd (get_instance ?c ''httpx'')) = Some Map.empty"
    using th [THEN conjunct2, THEN conjunct2, THEN conjunct1] start by simp
  have 4: "calls (snd (get_instance (snd (get_instance ?c ''httpx'')) ''httpx''))
             = [Initialize ''httpx'', Initialize ''httpx'']"
    using th [THEN conjunct2, THEN conjunct2, THEN conjunct2] start by simp
  from ok 1 2 3 4 show ?thesis by blast
qed

subsection \<open>The fast path through the shared state\<close>





section \<open>Properties of the query engine\<close>

subsection \<open>Search radius\<close>

text \<open>
  C2, at the input of the spec's scenario. \<^verbatim>\<open>distance_range\<close> is documented in
  meters (\<^verbatim>\<open>(min, max) in meters\<close> in the payload schema, \<^verbatim>\<open>(min, max)\<close> meters in the
  docstrings of both operations), and \<^verbatim>\<open>_build_geospatial_filter\<close> takes kilometers and
  multiplies by 1000. The code hands the upper bound over as it is: with
  \<^verbatim>\<open>distance_range = (0, 3000)\<close> the \<^verbatim>\<open>$geoNear\<close> stage of every store pipeline asks for
  \<^verbatim>\<open>maxDistance = 3000000\<close> meters, a radius of 3000 km and not of 3 km. With no range
  the radius is 5 km.
\<close>

theorem radius_of_3000_meters_is_3000_km:
  "max_distance_km (Some (0, 3000)) = 3000
   \<and> hd (qualifying_pipeline ((tea_query None None)\<lparr>distance_range := Some (0, 3000)\<rparr>))
       = GeoNear 121.5 25 ''distance_in_meter'' 3000000
   \<and> radius_km_of (hd (qualifying_pipeline ((tea_query None None)\<lparr>distance_range := Some (0, 3000)\<rparr>)))
       = Some 3000
   \<and> radius_km_of (hd (plain_store_pipeline ((tea_query None None)\<lparr>distance_range := Some (0, 3000)\<rparr>)))
       = Some 3000
   \<and> radius_km_of (hd (tagged_store_pipeline
                          ((tea_query (Some [''tea'']) None)\<lparr>distance_range := Some (0, 3000)\<rparr>) []))
       = Some 3000
   \<and> radius_km_of (hd (qualifying_pipeline (tea_query None None))) = Some 5
   \<and> radius_km_of (hd (plain_store_pipeline (tea_query None None))) = Some 5"
  by (simp add: max_distance_km_def qualifying_pipeline_def plain_store_pipeline_def
      tagged_store_pipeline_def build_geospatial_filter_def tea_query_def)

subsection \<open>Store conditions and the join of \<^verbatim>\<open>find_drinks\<close>\<close>

lemma store_conditions_sat:
  assumes "store_conditions stores = Inr conds"
  shows "sat txt ext (Or conds) d \<longleftrightarrow> (\<exists>m \<in> set stores. map_of d ''store_id'' = map_of m ''store_id'')"
  using assms
proof (induction stores arbitrary: conds)
  case Nil
  then show ?case by simp
next
  case (Cons s stores)
  from Cons.prems obtain v cs where v: "map_of s ''store_id'' = Some v"
    and cs: "store_conditions stores = Inr cs" and conds: "conds = Fields [(''store_id'', Eq v)] # cs"
    by (auto split: option.splits sum.splits)
  from Cons.IH [OF cs] show ?case
    by (auto simp: conds v)
qed

lemma attach_store_fields:
  assumes "attach_store item s = Inr d"
  shows "map_of d ''store_name'' = Some (dget s ''name'')"
    and "map_of d ''store_url'' = Some (dget s ''source_url'')"
    and "map_of d ''brand_name'' = Some (dget s ''brand'')"
    and "map_of item ''store_id'' \<noteq> None \<Longrightarrow> map_of d ''store_id'' = map_of item ''store_id''"
    and "k \<notin> {''store_id'', ''platform'', ''store_name'', ''store_url'', ''brand_name''}
           \<Longrightarrow> map_of d k = map_of item k"
  using assms
  by (auto simp: attach_store_def Let_def update_conv' delete_conv' split: option.splits)

lemma join_items_origin:
  assumes "join_items idx items = Inr r"
  shows "\<forall>d \<in> set r. \<exists>item \<in> set items. \<exists>k s.
           join_key item = Inr k \<and> idx k = Some s \<and> s \<noteq> [] \<and> attach_store item s = Inr d"
  using assms
proof (induction items arbitrary: r)
  case Nil
  then show ?case by simp
next
  case (Cons item items)
  from Cons.prems obtain k where k: "join_key item = Inr k"
    by (auto split: sum.splits)
  show ?case
  proof (cases "idx k")
    case None
    with Cons.prems k have "join_items idx items = Inr r" by simp
    from Cons.IH [OF this] show ?thesis by auto
  next
    case (Some s)
    show ?thesis
    proof (cases "s = []")
      case True
      with Cons.prems k Some have "join_items idx items = Inr r" by simp
      from Cons.IH [OF this] show ?thesis by auto
    next
      case False
      with Cons.prems k Some obtain d' r' where d': "attach_store item s = Inr d'"
        and r': "join_items idx items = Inr r'" and r: "r = d' # r'"
        by (auto split: sum.splits)
      let ?P = "\<lambda>d. \<exists>it \<in> set (item # items). \<exists>k s.
           join_key it = Inr k \<and> idx k = Some s \<and> s \<noteq> [] \<and> attach_store it s = Inr d"
      have "?P d'" using k Some False d' by (intro bexI [of _ item]) auto
      moreover have "\<forall>d \<in> set r'. ?P d" using Cons.IH [OF r'] by fastforce
      ultimately show ?thesis unfolding r by simp
    qed
  qed
qed

lemma join_items_keys:
  assumes "join_items idx items = Inr r"
  shows "\<forall>i \<in> set items. \<exists>k. join_key i = Inr k"
  using assms
  by (induction items arbitrary: r) (auto split: sum.splits option.splits if_splits)

lemma join_items_length:
  assumes "join_items idx items = Inr r"
  shows "length r = length (filter (\<lambda>i. \<exists>k s. join_key i = Inr k \<and> idx k = Some s \<and> s \<noteq> []) items)"
  using assms
  by (induction items arbitrary: r) (auto split: sum.splits option.splits if_splits)

lemma build_store_index_lookup:
  assumes "build_store_index stores idx0 = Inr idx"
  shows "idx k = (if \<exists>s \<in> set stores. join_key s = Inr k
                  then Some (last (filter (\<lambda>s. join_key s = Inr k) stores)) else idx0 k)"
  using assms
proof (induction stores arbitrary: idx0)
  case Nil
  then show ?case by simp
next
  case (Cons s stores)
  from Cons.prems obtain k0 where k0: "join_key s = Inr k0"
    and rest: "build_store_index stores (idx0(k0 \<mapsto> s)) = Inr idx"
    by (auto split: sum.splits)
  show ?case
  proof (cases "\<exists>s' \<in> set stores. join_key s' = Inr k")
    case True
    then have "filter (\<lambda>s. join_key s = Inr k) stores \<noteq> []"
      by (simp add: filter_empty_conv)
    with Cons.IH [OF rest] True show ?thesis by simp
  next
    case False
    then have "filter (\<lambda>s. join_key s = Inr k) stores = []"
      by (simp add: filter_empty_conv)
    with Cons.IH [OF rest] False k0 show ?thesis by auto
  qed
qed

lemma join_key_nonempty: "join_key s = Inr k \<Longrightarrow> s \<noteq> []"
  by (auto simp: join_key_def)

lemma join_key_attach:
  assumes "attach_store item s = Inr d" and "join_key item = Inr k"
  shows "join_key d = Inr k"
proof -
  from assms(2) have sid: "map_of item ''store_id'' \<noteq> None"
    by (auto simp: join_key_def split: option.splits)
  from attach_store_fields(4) [OF assms(1) sid]
  have 1: "map_of d ''store_id'' = map_of item ''store_id''" .
  from attach_store_fields(5) [OF assms(1), of "''platforms''"]
  have 2: "map_of d ''platforms'' = map_of item ''platforms''" by simp
  from 2 have 3: "dget d ''platforms'' = dget item ''platforms''" by (simp add: dget_def)
  have "join_key d = join_key item" unfolding join_key_def 1 3 by (rule refl)
  with assms(2) show ?thesis by simp
qed

lemma set_sort_desc [simp]: "set (sort_desc key xs) = set xs"
  by (simp add: sort_desc_def)

lemma length_sort_desc [simp]: "length (sort_desc key xs) = length xs"
  by (simp add: sort_desc_def)

lemma sorted_sort_desc: "sorted_wrt (\<lambda>a b. key b \<le> key a) (sort_desc key xs)"
proof -
  have "sorted (map key (sort_key key (rev xs)))" by (rule sorted_sort_key)
  then have "sorted_wrt (\<lambda>a b. key a \<le> key b) (sort_key key (rev xs))"
    by (simp add: sorted_map)
  then show ?thesis
    by (simp add: sort_desc_def sorted_wrt_rev)
qed

lemma sort_by_text_score_perm:
  assumes "sort_by_text_score xs = Inr ys"
  shows "set ys = set xs" and "length ys = length xs"
  using assms
  by (auto simp: sort_by_text_score_def split: sum.splits if_splits)

text \<open>What a run of \<^verbatim>\<open>_find_drinks_from_stores\<close> that returns went through.\<close>

lemma find_drinks_from_stores_run:
  assumes "find_drinks_from_stores db stores tags pf lmt qs = (Inr result, qs')"
  obtains conds items idx r where
    "store_conditions stores = Inr conds"
    "db ''menu_item'' (drinks_pipeline conds tags lmt) = Inr items"
    "qs' = qs @ [(''menu_item'', drinks_pipeline conds tags lmt)]"
    "build_store_index stores Map.empty = Inr idx"
    "join_items idx items = Inr r"
    "set result = set r" "length result = length r"
proof -
  from assms obtain conds where conds: "store_conditions stores = Inr conds"
    by (auto simp: find_drinks_from_stores_def split: sum.splits)
  from assms conds obtain items where
    items: "db ''menu_item'' (drinks_pipeline conds tags lmt) = Inr items"
    by (auto simp: find_drinks_from_stores_def aggregate_def split: sum.splits)
  from assms conds items obtain idx where idx: "build_store_index stores Map.empty = Inr idx"
    by (auto simp: find_drinks_from_stores_def aggregate_def split: sum.splits)
  from assms conds items idx obtain r where r: "join_items idx items = Inr r"
    by (auto simp: find_drinks_from_stores_def aggregate_def split: sum.splits)
  from assms conds items idx r
  have qs': "qs' = qs @ [(''menu_item'', drinks_pipeline conds tags lmt)]"
    and res: "if tags_of tags \<noteq> [] then sort_by_text_score r = Inr result else r = result"
    by (auto simp: find_drinks_from_stores_def aggregate_def split: if_splits)
  from res have "set result = set r \<and> length result = length r"
    by (auto dest: sort_by_text_score_perm split: if_splits)
  with that conds items idx r qs' show thesis by blast
qed

lemma find_drinks_run:
  assumes "find_drinks db q qs = (Inr result, qs')"
  obtains "db ''store'' (qualifying_pipeline q) = Inr []" "result = []"
  | stores where "db ''store'' (qualifying_pipeline q) = Inr stores" "stores \<noteq> []"
      "find_drinks_from_stores db stores (drink_tags q) (platform q) (limit q)
         (qs @ [(''store'', qualifying_pipeline q)]) = (Inr result, qs')"
  using assms
  by (auto simp: find_drinks_def find_qualifying_stores_def aggregate_def
      split: sum.splits if_splits)

subsection \<open>The example database\<close>

lemma honours_matching_db: "honours_match any_text any_cond (matching_db content) coll f"
  by (auto simp: honours_match_def matching_db_def list_all_iff)

lemmas tea_eval =
  find_drinks_def find_qualifying_stores_def aggregate_def matching_db_def tea_shop_def
  tea_query_def qualifying_pipeline_def build_geospatial_filter_def max_distance_km_def
  build_store_filters_def tags_of_def int_of_def brand_stages_def find_drinks_from_stores_def
  drinks_pipeline_def join_key_def dget_def attach_store_def Let_def
  find_drink_stores_with_menu_def find_stores_with_drink_tags_def join_menu_data_def
  matching_pipeline_def tagged_store_pipeline_def menu_pipeline_def build_drink_tags_filter_def
  store_projection_def index_item_def sort_desc_def hit_key_def sort_by_text_score_def
  any_text_def any_cond_def two_platforms_def

lemma tea_stores_answer:
  "matching_db tea_shop ''store'' (qualifying_pipeline (tea_query tags None)) =
     Inr [[(''store_id'', VStr ''b''), (''name'', VStr ''Bubble B''), (''brand'', VStr ''B''),
           (''source_url'', VStr ''https://b'')],
          [(''store_id'', VStr ''a''), (''name'', VStr ''Assam A''), (''brand'', VStr ''A''),
           (''source_url'', VStr ''https://a'')]]"
  by (simp add: tea_eval)

lemma tea_drinks_run:
  "find_drinks (matching_db tea_shop) (tea_query None None) [] =
    (Inr [[(''item_id'', VNum 1), (''price'', VNum 45), (''text_score'', VNum 1),
           (''store_id'', VStr ''a''), (''platform'', VNone), (''store_name'', VStr ''Assam A''),
           (''store_url'', VStr ''https://a''), (''brand_name'', VStr ''A'')],
          [(''item_id'', VNum 2), (''price'', VNum 30), (''text_score'', VNum 2),
           (''store_id'', VStr ''b''), (''platform'', VNone), (''store_name'', VStr ''Bubble B''),
           (''store_url'', VStr ''https://b''), (''brand_name'', VStr ''B'')],
          [(''item_id'', VNum 3), (''price'', VNum 60), (''text_score'', VNum 3),
           (''store_id'', VStr ''a''), (''platform'', VNone), (''store_name'', VStr ''Assam A''),
           (''store_url'', VStr ''https://a''), (''brand_name'', VStr ''A'')]],
     [(''store'', qualifying_pipeline (tea_query None None)),
      (''menu_item'',
       drinks_pipeline [Fields [(''store_id'', Eq (VStr ''b''))], Fields [(''store_id'', Eq (VStr ''a''))]]
         None (Some 100))])"
  by (simp add: tea_eval)

subsection \<open>No store, no menu query\<close>

text \<open>
  C5. When the phase-1 store query of \<^verbatim>\<open>find_drinks\<close> answers with no store, the
  result is the empty list, and the only query the call has issued is that store query:
  none on \<^verbatim>\<open>menu_item\<close>.
\<close>

theorem no_qualifying_store_no_menu_query:
  assumes "db ''store'' (qualifying_pipeline q) = Inr []"
  shows "fst (find_drinks db q qs) = Inr []
         \<and> snd (find_drinks db q qs) = qs @ [(''store'', qualifying_pipeline q)]
         \<and> ''menu_item'' \<notin> fst ` set (drop (length qs) (snd (find_drinks db q qs)))"
  using assms by (simp add: find_drinks_def find_qualifying_stores_def aggregate_def)

theorem no_qualifying_store_no_menu_query_witness:
  "matching_db tea_shop ''store'' (qualifying_pipeline (tea_query None (Some ''foodpanda''))) = Inr []
   \<and> fst (find_drinks (matching_db tea_shop) (tea_query None (Some ''foodpanda'')) []) = Inr []
   \<and> snd (find_drinks (matching_db tea_shop) (tea_query None (Some ''foodpanda'')) [])
       = [(''store'', qualifying_pipeline (tea_query None (Some ''foodpanda'')))]
   \<and> ''menu_item'' \<notin> fst ` set (snd (find_drinks (matching_db tea_shop)
                                          (tea_query None (Some ''foodpanda'')) []))"
proof -
  have none: "matching_db tea_shop ''store'' (qualifying_pipeline (tea_query None (Some ''foodpanda'')))
                = Inr []"
    by (simp add: tea_eval)
  from no_qualifying_store_no_menu_query
         [of "matching_db tea_shop" "tea_query None (Some ''foodpanda'')" "[]", OF none] none
  show ?thesis by simp
qed

subsection \<open>The price floor\<close>

text \<open>
  C9. Whatever the store conditions, the tags (given or not) and the limit, the
  \<^verbatim>\<open>menu_item\<close> pipeline of phase 2 has the stage \<^verbatim>\<open>{"$match": {"price": {"$gte": 20}}}\<close>.
  So when the database honours that stage, every drink \<^verbatim>\<open>find_drinks\<close> returns has a
  numeric price of at least 20 (the join leaves the price as the database gave it).
\<close>

theorem drinks_cost_at_least_20:
  assumes run: "find_drinks db q qs = (Inr result, qs')"
    and contract: "honours_match txt ext db ''menu_item'' (Fields [(''price'', Gte (VNum 20))])"
  shows "(\<forall>conds tags lmt.
            Match (Fields [(''price'', Gte (VNum 20))]) \<in> set (drinks_pipeline conds tags lmt))
         \<and> (\<forall>d \<in> set result. \<exists>p. map_of d ''price'' = Some (VNum p) \<and> 20 \<le> p)"
proof
  show "\<forall>conds tags lmt.
          Match (Fields [(''price'', Gte (VNum 20))]) \<in> set (drinks_pipeline conds tags lmt)"
    by (simp add: drinks_pipeline_def)
  show "\<forall>d \<in> set result. \<exists>p. map_of d ''price'' = Some (VNum p) \<and> 20 \<le> p"
  proof
    fix d assume d: "d \<in> set result"
    from run show "\<exists>p. map_of d ''price'' = Some (VNum p) \<and> 20 \<le> p"
    proof (cases rule: find_drinks_run)
      case 1
      with d show ?thesis by simp
    next
      case (2 stores)
      from 2(3) obtain conds items idx r where
        items: "db ''menu_item'' (drinks_pipeline conds (drink_tags q) (limit q)) = Inr items"
        and r: "join_items idx items = Inr r" and rs: "set result = set r"
        by (rule find_drinks_from_stores_run)
      from d rs join_items_origin [OF r] obtain item s where
        item: "item \<in> set items" and att: "attach_store item s = Inr d"
        by blast
      have "Match (Fields [(''price'', Gte (VNum 20))])
              \<in> set (drinks_pipeline conds (drink_tags q) (limit q))"
        by (simp add: drinks_pipeline_def)
      with contract items item have "sat txt ext (Fields [(''price'', Gte (VNum 20))]) item"
        unfolding honours_match_def by blast
      then obtain p where "map_of item ''price'' = Some (VNum p)" "20 \<le> p"
        by (auto split: option.splits val.splits)
      moreover from attach_store_fields(5) [OF att, of "''price''"]
      have "map_of d ''price'' = map_of item ''price''" by simp
      ultimately show ?thesis by simp
    qed
  qed
qed

text \<open>
  On the example database: item 4 costs 10 and is not returned; the three drinks returned
  cost 45, 30 and 60.
\<close>

theorem drinks_cost_at_least_20_witness:
  "fst (find_drinks (matching_db tea_shop) (tea_query None None) []) =
     Inr [[(''item_id'', VNum 1), (''price'', VNum 45), (''text_score'', VNum 1),
           (''store_id'', VStr ''a''), (''platform'', VNone), (''store_name'', VStr ''Assam A''),
           (''store_url'', VStr ''https://a''), (''brand_name'', VStr ''A'')],
          [(''item_id'', VNum 2), (''price'', VNum 30), (''text_score'', VNum 2),
           (''store_id'', VStr ''b''), (''platform'', VNone), (''store_name'', VStr ''Bubble B''),
           (''store_url'', VStr ''https://b''), (''brand_name'', VStr ''B'')],
          [(''item_id'', VNum 3), (''price'', VNum 60), (''text_score'', VNum 3),
           (''store_id'', VStr ''a''), (''platform'', VNone), (''store_name'', VStr ''Assam A''),
           (''store_url'', VStr ''https://a''), (''brand_name'', VStr ''A'')]]
   \<and> honours_match any_text any_cond (matching_db tea_shop) ''menu_item''
        (Fields [(''price'', Gte (VNum 20))])
   \<and> Match (Fields [(''price'', Gte (VNum 20))]) \<in> set (drinks_pipeline [] None None)
   \<and> Match (Fields [(''price'', Gte (VNum 20))]) \<in> set (drinks_pipeline [] (Some [''tea'']) None)
   \<and> (\<exists>p. map_of [(''item_id'', VNum 2), (''price'', VNum 30), (''text_score'', VNum 2),
                  (''store_id'', VStr ''b''), (''platform'', VNone),
                  (''store_name'', VStr ''Bubble B''), (''store_url'', VStr ''https://b''),
                  (''brand_name'', VStr ''B'')] ''price'' = Some (VNum p) \<and> 20 \<le> p)"
proof -
  note th = drinks_cost_at_least_20
    [of "matching_db tea_shop" "tea_query None None" "[]" _ _ any_text any_cond,
     OF tea_drinks_run honours_matching_db]
  from th [THEN conjunct1] have 1:
    "Match (Fields [(''price'', Gte (VNum 20))]) \<in> set (drinks_pipeline [] None None)"
    "Match (Fields [(''price'', Gte (VNum 20))]) \<in> set (drinks_pipeline [] (Some [''tea'']) None)"
    by blast+
  from th [THEN conjunct2] have 2:
    "\<exists>p. map_of [(''item_id'', VNum 2), (''price'', VNum 30), (''text_score'', VNum 2),
                 (''store_id'', VStr ''b''), (''platform'', VNone),
                 (''store_name'', VStr ''Bubble B''), (''store_url'', VStr ''https://b''),
                 (''brand_name'', VStr ''B'')] ''price'' = Some (VNum p) \<and> 20 \<le> p"
    by (simp (no_asm_use))
  from 1 2 tea_drinks_run honours_matching_db show ?thesis by simp
qed

subsection \<open>The join of \<^verbatim>\<open>find_drinks\<close>\<close>

text \<open>
  What the join does, in terms of the key the code builds, \<open>join_key\<close>:
  \<^verbatim>\<open>(d["store_id"], d.get("platforms"))\<close>. For every drink of a run that returns, some
  phase-1 store has the drink's key, and \<^verbatim>\<open>store_name\<close>, \<^verbatim>\<open>store_url\<close> and
  \<^verbatim>\<open>brand_name\<close> of the drink are \<^verbatim>\<open>name\<close>, \<^verbatim>\<open>source_url\<close> and \<^verbatim>\<open>brand\<close> of that store
  (the last one in the phase-1 answer, should several have the key); there are as many
  drinks as menu items whose key some phase-1 store has.
\<close>

lemma join_follows_join_key:
  assumes run: "find_drinks db q qs = (Inr result, qs')"
    and phase1: "db ''store'' (qualifying_pipeline q) = Inr stores"
  shows "(\<forall>d \<in> set result.
            filter (\<lambda>s. join_key s = join_key d) stores \<noteq> []
            \<and> (let s = last (filter (\<lambda>s. join_key s = join_key d) stores)
               in map_of d ''store_name'' = Some (dget s ''name'')
                  \<and> map_of d ''store_url'' = Some (dget s ''source_url'')
                  \<and> map_of d ''brand_name'' = Some (dget s ''brand'')))
         \<and> (stores \<noteq> [] \<longrightarrow>
              (\<exists>conds items. store_conditions stores = Inr conds
                 \<and> db ''menu_item'' (drinks_pipeline conds (drink_tags q) (limit q)) = Inr items
                 \<and> (\<forall>d \<in> set result. \<exists>i \<in> set items. join_key i = join_key d)
                 \<and> length result
                     = length (filter (\<lambda>i. \<exists>s \<in> set stores. join_key s = join_key i) items)))"
  using run
proof (cases rule: find_drinks_run)
  case 1
  with phase1 show ?thesis by simp
next
  case (2 stores')
  with phase1 have same: "stores' = stores" by simp
  from 2(3) [unfolded same] obtain conds items idx r where
    conds: "store_conditions stores = Inr conds"
    and items: "db ''menu_item'' (drinks_pipeline conds (drink_tags q) (limit q)) = Inr items"
    and idx: "build_store_index stores Map.empty = Inr idx"
    and r: "join_items idx items = Inr r"
    and rs: "set result = set r" "length result = length r"
    by (rule find_drinks_from_stores_run)
  note look = build_store_index_lookup [OF idx]
  have origin: "\<exists>i \<in> set items. \<exists>k. join_key i = Inr k \<and> join_key d = Inr k
                  \<and> filter (\<lambda>s. join_key s = Inr k) stores \<noteq> []
                  \<and> attach_store i (last (filter (\<lambda>s. join_key s = Inr k) stores)) = Inr d"
    if "d \<in> set result" for d
  proof -
    from that rs join_items_origin [OF r] obtain i k s where
      i: "i \<in> set items" and k: "join_key i = Inr k" and s: "idx k = Some s"
      and att: "attach_store i s = Inr d"
      by blast
    from s look [of k] have ex: "\<exists>s \<in> set stores. join_key s = Inr k"
      and last: "s = last (filter (\<lambda>s. join_key s = Inr k) stores)"
      by (auto split: if_splits)
    from ex have "filter (\<lambda>s. join_key s = Inr k) stores \<noteq> []"
      by (simp add: filter_empty_conv)
    with i k att last join_key_attach [OF att k] show ?thesis by blast
  qed
  have fields: "filter (\<lambda>s. join_key s = join_key d) stores \<noteq> []
            \<and> (let s = last (filter (\<lambda>s. join_key s = join_key d) stores)
               in map_of d ''store_name'' = Some (dget s ''name'')
                  \<and> map_of d ''store_url'' = Some (dget s ''source_url'')
                  \<and> map_of d ''brand_name'' = Some (dget s ''brand''))"
    if "d \<in> set result" for d
  proof -
    from origin [OF that] obtain i k where
      k: "join_key d = Inr k" and ne: "filter (\<lambda>s. join_key s = Inr k) stores \<noteq> []"
      and att: "attach_store i (last (filter (\<lambda>s. join_key s = Inr k) stores)) = Inr d"
      by blast
    from attach_store_fields(1-3) [OF att] ne show ?thesis
      by (simp add: k Let_def)
  qed
  have from_items: "\<exists>i \<in> set items. join_key i = join_key d" if "d \<in> set result" for d
    using origin [OF that] by auto
  have "filter (\<lambda>i. \<exists>k s. join_key i = Inr k \<and> idx k = Some s \<and> s \<noteq> []) items
        = filter (\<lambda>i. \<exists>s \<in> set stores. join_key s = join_key i) items"
  proof (rule filter_cong [OF refl])
    fix i assume "i \<in> set items"
    with join_items_keys [OF r] obtain k where k: "join_key i = Inr k" by blast
    show "(\<exists>k s. join_key i = Inr k \<and> idx k = Some s \<and> s \<noteq> [])
          \<longleftrightarrow> (\<exists>s \<in> set stores. join_key s = join_key i)"
    proof
      assume "\<exists>k s. join_key i = Inr k \<and> idx k = Some s \<and> s \<noteq> []"
      with k look [of k] show "\<exists>s \<in> set stores. join_key s = join_key i"
        by (auto split: if_splits)
    next
      assume ex: "\<exists>s \<in> set stores. join_key s = join_key i"
      then have ne: "filter (\<lambda>s. join_key s = Inr k) stores \<noteq> []"
        by (simp add: filter_empty_conv k)
      from ex k look [of k]
      have "idx k = Some (last (filter (\<lambda>s. join_key s = Inr k) stores))" by simp
      moreover from last_in_set [OF ne]
      have "join_key (last (filter (\<lambda>s. join_key s = Inr k) stores)) = Inr k" by simp
      ultimately show "\<exists>k s. join_key i = Inr k \<and> idx k = Some s \<and> s \<noteq> []"
        using k join_key_nonempty by blast
    qed
  qed
  with join_items_length [OF r] rs(2)
  have count: "length result
                = length (filter (\<lambda>i. \<exists>s \<in> set stores. join_key s = join_key i) items)"
    by simp
  from fields from_items count conds items show ?thesis by blast
qed

text \<open>An item whose key no store has is passed over, and nothing is raised for it.\<close>

lemma orphan_item_skipped:
  assumes "join_key item = Inr k" and "idx k = None"
  shows "join_items idx (item # items) = join_items idx items"
  using assms by simp

text \<open>
  The store documents a database hands back for the phase-1 pipeline, when it projects
  as the pipeline asks, have no \<^verbatim>\<open>platforms\<close> entry: the projection keeps
  \<^verbatim>\<open>platform\<close>. The second component of their key is \<^verbatim>\<open>None\<close>.
\<close>

lemma map_of_apply_project:
  "map_of (apply_project ps d) k = (if map_of ps k = Some Incl then map_of d k else None)"
  unfolding apply_project_def by (induction d) auto

lemma fold_run_stage_snoc: "fold run_stage (pl @ [st]) ds = run_stage st (fold run_stage pl ds)"
  by simp

lemma projected_store_has_no_platforms:
  assumes "projecting_db content ''store'' (qualifying_pipeline q) = Inr stores"
    and "s \<in> set stores"
  shows "map_of s ''platforms'' = None \<and> (\<forall>sid. join_key s = Inr (sid, p) \<longrightarrow> p = VNone)"
proof -
  from assms obtain d where "s = apply_project
      [(''_id'', Excl), (''store_id'', Incl), (''name'', Incl), (''brand'', Incl),
       (''address'', Incl), (''platform'', Incl), (''rating'', Incl),
       (''review_count'', Incl), (''cuisines'', Incl), (''source_url'', Incl),
       (''distance_in_meter'', Path ''$distance_in_meter''),
       (''distance_in_km'', RoundKm ''$distance_in_meter'')] d"
    by (auto simp: projecting_db_def qualifying_pipeline_def)
  then have "map_of s ''platforms'' = None"
    by (simp add: map_of_apply_project)
  then show ?thesis
    by (auto simp: join_key_def dget_def split: option.splits if_splits)
qed

text \<open>
  C4, on documents shaped as the schema. The join key reads \<^verbatim>\<open>store.get("platforms")\<close>
  and \<^verbatim>\<open>item.get("platforms")\<close>, while the platform of a store and of a menu item is
  their \<^verbatim>\<open>platform\<close> field: phase 1 projects \<^verbatim>\<open>platform\<close>, and the join itself copies
  \<^verbatim>\<open>store_data.get("platform")\<close> onto the item. So the key is
  \<^verbatim>\<open>(store_id, None)\<close> on both sides and the platform is not compared. With the store
  \<^verbatim>\<open>a\<close> of \<^verbatim>\<open>ubereats\<close> in phase 1 and a menu item of the store \<^verbatim>\<open>a\<close> of
  \<^verbatim>\<open>foodpanda\<close>, whose \<^verbatim>\<open>(store_id, platform)\<close> no phase-1 store has, \<^verbatim>\<open>find_drinks\<close>
  does not drop the item: it returns it with the name, URL and brand of the
  \<^verbatim>\<open>ubereats\<close> store, and with that store's platform.
\<close>

theorem foodpanda_item_gets_ubereats_store:
  "platform_shop ''store''
     = [[(''store_id'', VStr ''a''), (''platform'', VStr ''ubereats''),
         (''name'', VStr ''Assam A''), (''brand'', VStr ''A''),
         (''source_url'', VStr ''https://www.ubereats.com/tw/store/a'')]]
   \<and> platform_shop ''menu_item''
     = [[(''item_id'', VNum 1), (''store_id'', VStr ''a''), (''platform'', VStr ''foodpanda''),
         (''name'', VStr ''Milk tea''), (''price'', VNum 50)]]
   \<and> projecting_db platform_shop ''store'' (qualifying_pipeline (tea_query None (Some ''ubereats'')))
     = Inr [[(''store_id'', VStr ''a''), (''platform'', VStr ''ubereats''),
             (''name'', VStr ''Assam A''), (''brand'', VStr ''A''),
             (''source_url'', VStr ''https://www.ubereats.com/tw/store/a'')]]
   \<and> (VStr ''a'', VStr ''foodpanda'') \<noteq> (VStr ''a'', VStr ''ubereats'')
   \<and> join_key [(''store_id'', VStr ''a''), (''platform'', VStr ''ubereats''),
               (''name'', VStr ''Assam A''), (''brand'', VStr ''A''),
               (''source_url'', VStr ''https://www.ubereats.com/tw/store/a'')]
     = Inr (VStr ''a'', VNone)
   \<and> fst (find_drinks (projecting_db platform_shop) (tea_query None (Some ''ubereats'')) [])
     = Inr [[(''item_id'', VNum 1), (''name'', VStr ''Milk tea''), (''price'', VNum 50),
             (''store_id'', VStr ''a''), (''platform'', VStr ''ubereats''),
             (''store_name'', VStr ''Assam A''),
             (''store_url'', VStr ''https://www.ubereats.com/tw/store/a''),
             (''brand_name'', VStr ''A'')]]"
  by (simp add: tea_eval platform_shop_def projecting_db_def apply_project_def)

subsection \<open>Ranking of \<^verbatim>\<open>find_drink_stores_with_menu\<close>\<close>

text \<open>The loop of \<^verbatim>\<open>_join_menu_data\<close> over the menu items builds \<open>index_of\<close>.\<close>

lemma index_item_step:
  assumes "index_item item (index_of pre) = Inr st"
  shows "st = index_of (pre @ [item])"
proof -
  from assms obtain key where key: "map_of item ''store_id'' = Some key"
    by (auto simp: index_item_def split: option.splits)
  have other: "items_of (pre @ [item]) k = items_of pre k" if "k \<noteq> key" for k
    using that key by (simp add: items_of_def)
  have this_key: "items_of (pre @ [item]) key = items_of pre key @ [item]"
    using key by (simp add: items_of_def)
  from assms key have st: "st =
      ((fst (index_of pre))(key \<mapsto> items_of pre key @ [item]),
       (snd (index_of pre))(key \<mapsto> int (length (items_of pre key)) + 1))"
    by (auto simp: index_item_def index_of_def Let_def split: if_splits)
  show ?thesis
    unfolding st
    by (rule prod_eqI; rule ext) (auto simp: index_of_def other this_key)
qed

lemma build_menu_index_result:
  assumes "build_menu_index items (index_of pre) = Inr st"
  shows "st = index_of (pre @ items)"
  using assms
proof (induction items arbitrary: pre)
  case Nil
  then show ?case by simp
next
  case (Cons item items)
  from Cons.prems obtain st1 where 1: "index_item item (index_of pre) = Inr st1"
    and 2: "build_menu_index items st1 = Inr st"
    by (auto split: sum.splits)
  from index_item_step [OF 1] 2 have "build_menu_index items (index_of (pre @ [item])) = Inr st"
    by simp
  from Cons.IH [OF this] show ?case by simp
qed

lemma index_of_Nil: "index_of [] = (Map.empty, Map.empty)"
  by (simp add: index_of_def items_of_def)

lemma store_hits_items_of:
  assumes "map_of d ''store_id'' = Some key"
  shows "store_hits items d = length (items_of items key)"
  using assms by (simp add: store_hits_def items_of_def)

text \<open>The sort key of a store copy is the number of items with its \<^verbatim>\<open>store_id\<close>.\<close>

lemma attach_menus_hits:
  assumes "attach_menus (fst (index_of items)) (snd (index_of items)) True stores = Inr r"
  shows "\<forall>d \<in> set r. hit_key d = real (store_hits items d)"
  using assms
proof (induction stores arbitrary: r)
  case Nil
  then show ?case by simp
next
  case (Cons s stores)
  from Cons.prems obtain key r' where key: "map_of s ''store_id'' = Some key"
    and r': "attach_menus (fst (index_of items)) (snd (index_of items)) True stores = Inr r'"
    by (auto simp: Let_def split: option.splits if_splits sum.splits)
  define c2 where "c2 = AList.update ''hit_count''
      (VNum (real_of_int (case snd (index_of items) key of None \<Rightarrow> 0 | Some n \<Rightarrow> n)))
      (AList.update ''menu''
        (VList (map VDoc (case fst (index_of items) key of None \<Rightarrow> [] | Some l \<Rightarrow> l))) s)"
  from Cons.prems key r' have r: "r = c2 # r'"
    by (auto simp: c2_def Let_def split: if_splits)
  have "map_of c2 ''store_id'' = Some key"
    by (simp add: c2_def update_conv' key)
  then have "store_hits items c2 = length (items_of items key)"
    by (rule store_hits_items_of)
  moreover have "hit_key c2 = real (length (items_of items key))"
    by (simp add: hit_key_def c2_def update_conv' index_of_def)
  ultimately have "hit_key c2 = real (store_hits items c2)" by simp
  with Cons.IH [OF r'] show ?case by (simp add: r)
qed

lemma store_hits_delete [simp]:
  "store_hits items (AList.delete ''hit_count'' d) = store_hits items d"
  by (simp add: store_hits_def delete_conv')

lemma join_menu_data_sorted:
  assumes run: "join_menu_data db stores (Some tags) qs = (Inr result, qs')"
    and tags: "tags \<noteq> []" and stores: "stores \<noteq> []"
  shows "\<exists>conds items. store_conditions stores = Inr conds
           \<and> db ''menu_item'' (menu_pipeline conds (Some tags)) = Inr items
           \<and> sorted_wrt (\<lambda>a b. store_hits items b \<le> store_hits items a) result
           \<and> (\<forall>d \<in> set result. map_of d ''hit_count'' = None)"
proof -
  from tags have t: "tags_of (Some tags) \<noteq> []" by (simp add: tags_of_def)
  from run stores obtain conds where conds: "store_conditions stores = Inr conds"
    by (auto simp: join_menu_data_def split: sum.splits)
  from run stores conds obtain items where
    items: "db ''menu_item'' (menu_pipeline conds (Some tags)) = Inr items"
    by (auto simp: join_menu_data_def aggregate_def split: sum.splits)
  from run stores conds items obtain st where
    st: "build_menu_index items (Map.empty, Map.empty) = Inr st"
    by (auto simp: join_menu_data_def aggregate_def split: sum.splits)
  from build_menu_index_result [of items "[]" st] st have st_eq: "st = index_of items"
    by (simp add: index_of_Nil)
  from run stores conds items st t obtain r where
    r: "attach_menus (fst (index_of items)) (snd (index_of items)) True stores = Inr r"
    and res: "result = map (AList.delete ''hit_count'') (sort_desc hit_key r)"
    by (auto simp: join_menu_data_def aggregate_def st_eq split: sum.splits prod.splits)
  have "sorted_wrt (\<lambda>a b. hit_key b \<le> hit_key a) (sort_desc hit_key r)"
    by (rule sorted_sort_desc)
  then have "sorted_wrt (\<lambda>a b. store_hits items b \<le> store_hits items a) (sort_desc hit_key r)"
  proof (rule sorted_wrt_mono_rel [rotated])
    fix a b assume "a \<in> set (sort_desc hit_key r)" "b \<in> set (sort_desc hit_key r)"
      and le: "hit_key b \<le> hit_key a"
    with attach_menus_hits [OF r] have "hit_key a = real (store_hits items a)"
      "hit_key b = real (store_hits items b)" by simp_all
    with le show "store_hits items b \<le> store_hits items a" by simp
  qed
  then have "sorted_wrt (\<lambda>a b. store_hits items b \<le> store_hits items a) result"
    by (simp add: res sorted_wrt_map)
  moreover have "\<forall>d \<in> set result. map_of d ''hit_count'' = None"
    by (auto simp: res delete_conv')
  ultimately show ?thesis using conds items by blast
qed

text \<open>
  C3. Let \<^verbatim>\<open>find_drink_stores_with_menu\<close> be called with a non-empty tag list and return
  \<open>result\<close>. No document of \<open>result\<close> has a \<^verbatim>\<open>hit_count\<close> entry. And unless \<open>result\<close> is
  empty, it is ordered non-increasingly by \<open>store_hits items\<close>, the number of documents
  with the store's \<^verbatim>\<open>store_id\<close> among \<open>items\<close>, where \<open>items\<close> is the database's answer to
  the tag search on \<^verbatim>\<open>menu_item\<close> restricted to the phase-2 stores.
\<close>

theorem tagged_stores_ranked_by_hits:
  assumes tags: "tags_of (drink_tags q) \<noteq> []"
    and run: "find_drink_stores_with_menu db q qs = (Inr result, qs')"
  shows "(\<forall>d \<in> set result. map_of d ''hit_count'' = None)
         \<and> (result = [] \<or>
              (\<exists>matching conds0 stores conds items.
                  db ''menu_item'' (matching_pipeline (tags_of (drink_tags q)) (platform q)) = Inr matching
                  \<and> store_conditions matching = Inr conds0
                  \<and> db ''store'' (tagged_store_pipeline q conds0) = Inr stores
                  \<and> store_conditions stores = Inr conds
                  \<and> db ''menu_item'' (menu_pipeline conds (Some (tags_of (drink_tags q)))) = Inr items
                  \<and> sorted_wrt (\<lambda>a b. store_hits items b \<le> store_hits items a) result))"
proof (cases "result = []")
  case True
  then show ?thesis by simp
next
  case False
  let ?tags = "tags_of (drink_tags q)"
  from run tags have run1: "find_stores_with_drink_tags db q ?tags qs = (Inr result, qs')"
    by (simp add: find_drink_stores_with_menu_def)
  from run1 False obtain matching where
    matching: "db ''menu_item'' (matching_pipeline ?tags (platform q)) = Inr matching"
    and m_ne: "matching \<noteq> []"
    by (auto simp: find_stores_with_drink_tags_def aggregate_def split: sum.splits if_splits)
  from run1 matching m_ne obtain conds0 where conds0: "store_conditions matching = Inr conds0"
    by (auto simp: find_stores_with_drink_tags_def aggregate_def split: sum.splits)
  from run1 False matching m_ne conds0 obtain stores where
    stores: "db ''store'' (tagged_store_pipeline q conds0) = Inr stores" and s_ne: "stores \<noteq> []"
    by (auto simp: find_stores_with_drink_tags_def aggregate_def split: sum.splits if_splits)
  from run1 matching m_ne conds0 stores s_ne obtain qs2 where
    join: "join_menu_data db stores (Some ?tags) qs2 = (Inr result, qs')"
    by (auto simp: find_stores_with_drink_tags_def aggregate_def)
  from join_menu_data_sorted [OF join tags s_ne] matching conds0 stores
  show ?thesis by blast
qed

text \<open>
  On the example database the store query answers \<^verbatim>\<open>b\<close> before \<^verbatim>\<open>a\<close>; four items
  match for \<^verbatim>\<open>a\<close> and one for \<^verbatim>\<open>b\<close>, and the result has \<^verbatim>\<open>a\<close> first.
\<close>

lemma tea_stores_run:
  "fst (find_drink_stores_with_menu (matching_db tea_shop) (tea_query (Some [''tea'']) None) []) =
     Inr [[(''store_id'', VStr ''a''), (''name'', VStr ''Assam A''), (''brand'', VStr ''A''),
           (''source_url'', VStr ''https://a''),
           (''menu'', VList
              [VDoc [(''item_id'', VNum 1), (''store_id'', VStr ''a''), (''price'', VNum 45),
                     (''text_score'', VNum 1)],
               VDoc [(''item_id'', VNum 3), (''store_id'', VStr ''a''), (''price'', VNum 60),
                     (''text_score'', VNum 3)],
               VDoc [(''item_id'', VNum 4), (''store_id'', VStr ''a''), (''price'', VNum 10),
                     (''text_score'', VNum 4)],
               VDoc [(''item_id'', VNum 5), (''store_id'', VStr ''a''),
                     (''platforms'', VStr ''foodpanda''), (''price'', VNum 50),
                     (''text_score'', VNum 5)]])],
          [(''store_id'', VStr ''b''), (''name'', VStr ''Bubble B''), (''brand'', VStr ''B''),
           (''source_url'', VStr ''https://b''),
           (''menu'', VList
              [VDoc [(''item_id'', VNum 2), (''store_id'', VStr ''b''), (''price'', VNum 30),
                     (''text_score'', VNum 2)]])]]"
  by (simp add: tea_eval)

theorem tagged_stores_ranked_by_hits_witness:
  "tags_of (drink_tags (tea_query (Some [''tea'']) None)) \<noteq> []
   \<and> find_drink_stores_with_menu (matching_db tea_shop) (tea_query (Some [''tea'']) None) []
       = (Inr (projr (fst (find_drink_stores_with_menu (matching_db tea_shop)
                             (tea_query (Some [''tea'']) None) []))),
          snd (find_drink_stores_with_menu (matching_db tea_shop)
                 (tea_query (Some [''tea'']) None) []))
   \<and> map (\<lambda>d. map_of d ''store_id'')
        (projr (fst (find_drink_stores_with_menu (matching_db tea_shop)
                       (tea_query (Some [''tea'']) None) [])))
       = [Some (VStr ''a''), Some (VStr ''b'')]
   \<and> map (\<lambda>d. map_of d ''hit_count'')
        (projr (fst (find_drink_stores_with_menu (matching_db tea_shop)
                       (tea_query (Some [''tea'']) None) [])))
       = [None, None]
   \<and> map (store_hits (tea_shop ''menu_item''))
        (projr (fst (find_drink_stores_with_menu (matching_db tea_shop)
                       (tea_query (Some [''tea'']) None) [])))
       = [4, 1]
   \<and> sorted_wrt (\<lambda>a b. store_hits (tea_shop ''menu_item'') b \<le> store_hits (tea_shop ''menu_item'') a)
        (projr (fst (find_drink_stores_with_menu (matching_db tea_shop)
                       (tea_query (Some [''tea'']) None) [])))"
proof -
  let ?db = "matching_db tea_shop" and ?q = "tea_query (Some [''tea'']) None"
  let ?run = "find_drink_stores_with_menu ?db ?q []"
  let ?result = "projr (fst ?run)"
  have tags: "tags_of (drink_tags ?q) \<noteq> []"
    by (simp add: tea_query_def tags_of_def)
  have run: "?run = (Inr ?result, snd ?run)"
    by (simp add: tea_stores_run prod_eq_iff)
  note th = tagged_stores_ranked_by_hits [of ?q ?db "[]" ?result "snd ?run", OF tags run]
  have ne: "?result \<noteq> []" by (simp add: tea_stores_run)
  have ids: "map (\<lambda>d. map_of d ''store_id'') ?result = [Some (VStr ''a''), Some (VStr ''b'')]"
    by (simp add: tea_stores_run)
  have hits: "map (store_hits (tea_shop ''menu_item'')) ?result = [4, 1]"
    by (simp add: tea_stores_run store_hits_def tea_shop_def)
  from th [THEN conjunct1] have none: "map (\<lambda>d. map_of d ''hit_count'') ?result = [None, None]"
    by (simp add: tea_stores_run)
  from th [THEN conjunct2] ne obtain matching conds0 stores conds items where
    matching: "?db ''menu_item'' (matching_pipeline (tags_of (drink_tags ?q)) (platform ?q))
                 = Inr matching"
    and conds0: "store_conditions matching = Inr conds0"
    and stores: "?db ''store'' (tagged_store_pipeline ?q conds0) = Inr stores"
    and conds: "store_conditions stores = Inr conds"
    and items: "?db ''menu_item'' (menu_pipeline conds (Some (tags_of (drink_tags ?q)))) = Inr items"
    and sorted: "sorted_wrt (\<lambda>a b. store_hits items b \<le> store_hits items a) ?result"
    by blast
  from matching have "matching = tea_shop ''menu_item''"
    by (simp add: tea_eval)
  with conds0 have "conds0 =
      [Fields [(''store_id'', Eq (VStr ''a''))], Fields [(''store_id'', Eq (VStr ''b''))],
       Fields [(''store_id'', Eq (VStr ''a''))], Fields [(''store_id'', Eq (VStr ''a''))],
       Fields [(''store_id'', Eq (VStr ''a''))]]"
    by (auto simp: tea_shop_def)
  with stores have "stores = tea_shop ''store''"
    by (simp add: tea_eval)
  with conds have "conds =
      [Fields [(''store_id'', Eq (VStr ''b''))], Fields [(''store_id'', Eq (VStr ''a''))]]"
    by (auto simp: tea_shop_def)
  with items have "items = tea_shop ''menu_item''"
    by (simp add: tea_eval)
  with sorted have
    "sorted_wrt (\<lambda>a b. store_hits (tea_shop ''menu_item'') b \<le> store_hits (tea_shop ''menu_item'') a)
       ?result"
    by simp
  with tags run ids none hits show ?thesis by blast
qed

subsection \<open>The store restriction of the tag search\<close>

lemma join_menu_data_log: "\<exists>rest. snd (join_menu_data db stores tags qs) = qs @ rest"
  by (auto simp: join_menu_data_def aggregate_def split: sum.splits prod.splits)

text \<open>
  C6 as the spec states it fails: the conditions of phase 2 are built from the
  \<^verbatim>\<open>store_id\<close> of each phase-1 document alone. On \<open>two_platforms\<close> phase 1 collects the
  pair (\<^verbatim>\<open>a\<close>, \<^verbatim>\<open>ubereats\<close>); the store document (\<^verbatim>\<open>a\<close>, \<^verbatim>\<open>foodpanda\<close>) satisfies
  the restriction stage, its pair is not the collected one, and the operation returns
  it.
\<close>

theorem store_of_other_platform_admitted_counterexample:
  "matching_db two_platforms ''menu_item'' (matching_pipeline [''tea''] None)
     = Inr [[(''item_id'', VNum 1), (''store_id'', VStr ''a''), (''platforms'', VStr ''ubereats'')]]
   \<and> store_conditions
        [[(''item_id'', VNum 1), (''store_id'', VStr ''a''), (''platforms'', VStr ''ubereats'')]]
       = Inr [Fields [(''store_id'', Eq (VStr ''a''))]]
   \<and> sat any_text any_cond (Or [Fields [(''store_id'', Eq (VStr ''a''))]])
        [(''store_id'', VStr ''a''), (''platforms'', VStr ''foodpanda''), (''name'', VStr ''Assam A'')]
   \<and> (dget [(''store_id'', VStr ''a''), (''platforms'', VStr ''foodpanda''),
             (''name'', VStr ''Assam A'')] ''store_id'',
       dget [(''store_id'', VStr ''a''), (''platforms'', VStr ''foodpanda''),
             (''name'', VStr ''Assam A'')] ''platforms'')
      \<noteq> (dget [(''item_id'', VNum 1), (''store_id'', VStr ''a''),
                (''platforms'', VStr ''ubereats'')] ''store_id'',
           dget [(''item_id'', VNum 1), (''store_id'', VStr ''a''),
                (''platforms'', VStr ''ubereats'')] ''platforms'')
   \<and> fst (find_drink_stores_with_menu (matching_db two_platforms)
             (tea_query (Some [''tea'']) None) [])
       = Inr [[(''store_id'', VStr ''a''), (''platforms'', VStr ''foodpanda''),
               (''name'', VStr ''Assam A''),
               (''menu'', VList [VDoc [(''item_id'', VNum 1), (''store_id'', VStr ''a''),
                                       (''platforms'', VStr ''ubereats'')]])]]"
  by (simp add: tea_eval)

text \<open>
  C6, amended. Let \<^verbatim>\<open>find_drink_stores_with_menu\<close> be called with a non-empty tag list,
  and let phase 1 answer with the non-empty list \<open>matching_stores\<close>, each document with a
  \<^verbatim>\<open>store_id\<close>. Then the first two queries of the call are the phase-1 query and the
  phase-2 store query, whose pipeline has the stage \<^verbatim>\<open>{"$match": {"$or": conds}}\<close>; and a
  document satisfies that stage exactly when its \<^verbatim>\<open>store_id\<close> is the \<^verbatim>\<open>store_id\<close> of
  some document of \<open>matching_stores\<close>. The platform of the pair is not compared.
\<close>

theorem tagged_store_query_restricted_by_store_id:
  assumes tags: "tags_of (drink_tags q) \<noteq> []"
    and phase1: "db ''menu_item'' (matching_pipeline (tags_of (drink_tags q)) (platform q))
                  = Inr matching_stores"
    and ne: "matching_stores \<noteq> []"
    and conds: "store_conditions matching_stores = Inr conds"
  shows "take 2 (drop (length qs) (snd (find_drink_stores_with_menu db q qs)))
           = [(''menu_item'', matching_pipeline (tags_of (drink_tags q)) (platform q)),
              (''store'', tagged_store_pipeline q conds)]
         \<and> Match (Or conds) \<in> set (tagged_store_pipeline q conds)
         \<and> (\<forall>d. sat txt ext (Or conds) d
                 \<longleftrightarrow> (\<exists>m \<in> set matching_stores. map_of d ''store_id'' = map_of m ''store_id''))"
proof -
  let ?a = "(''menu_item'', matching_pipeline (tags_of (drink_tags q)) (platform q))"
  let ?b = "(''store'', tagged_store_pipeline q conds)"
  have "\<exists>rest. snd (find_drink_stores_with_menu db q qs) = qs @ [?a, ?b] @ rest"
  proof (cases "db ''store'' (tagged_store_pipeline q conds)")
    case (Inl e)
    with tags phase1 ne conds show ?thesis
      by (simp add: find_drink_stores_with_menu_def find_stores_with_drink_tags_def aggregate_def)
  next
    case (Inr stores)
    show ?thesis
    proof (cases "stores = []")
      case True
      with Inr tags phase1 ne conds show ?thesis
        by (simp add: find_drink_stores_with_menu_def find_stores_with_drink_tags_def aggregate_def)
    next
      case False
      from join_menu_data_log [of db stores "Some (tags_of (drink_tags q))" "qs @ [?a, ?b]"]
      obtain rest where
        "snd (join_menu_data db stores (Some (tags_of (drink_tags q))) (qs @ [?a, ?b]))
           = (qs @ [?a, ?b]) @ rest" by blast
      with False Inr tags phase1 ne conds show ?thesis
        by (simp add: find_drink_stores_with_menu_def find_stores_with_drink_tags_def aggregate_def)
    qed
  qed
  then have "take 2 (drop (length qs) (snd (find_drink_stores_with_menu db q qs))) = [?a, ?b]"
    by auto
  moreover have "Match (Or conds) \<in> set (tagged_store_pipeline q conds)"
    by (simp add: tagged_store_pipeline_def)
  moreover have "\<forall>d. sat txt ext (Or conds) d
                 \<longleftrightarrow> (\<exists>m \<in> set matching_stores. map_of d ''store_id'' = map_of m ''store_id'')"
    using store_conditions_sat [OF conds] by blast
  ultimately show ?thesis by blast
qed

theorem tagged_store_query_restricted_by_store_id_witness:
  "tags_of (drink_tags (tea_query (Some [''tea'']) None)) \<noteq> []
   \<and> matching_db two_platforms ''menu_item''
        (matching_pipeline (tags_of (drink_tags (tea_query (Some [''tea'']) None)))
           (platform (tea_query (Some [''tea'']) None)))
       = Inr [[(''item_id'', VNum 1), (''store_id'', VStr ''a''), (''platforms'', VStr ''ubereats'')]]
   \<and> store_conditions
        [[(''item_id'', VNum 1), (''store_id'', VStr ''a''), (''platforms'', VStr ''ubereats'')]]
       = Inr [Fields [(''store_id'', Eq (VStr ''a''))]]
   \<and> take 2 (snd (find_drink_stores_with_menu (matching_db two_platforms)
                     (tea_query (Some [''tea'']) None) []))
       = [(''menu_item'', matching_pipeline [''tea''] None),
          (''store'', tagged_store_pipeline (tea_query (Some [''tea'']) None)
                        [Fields [(''store_id'', Eq (VStr ''a''))]])]
   \<and> Match (Or [Fields [(''store_id'', Eq (VStr ''a''))]])
        \<in> set (tagged_store_pipeline (tea_query (Some [''tea'']) None)
                  [Fields [(''store_id'', Eq (VStr ''a''))]])
   \<and> sat any_text any_cond (Or [Fields [(''store_id'', Eq (VStr ''a''))]])
        [(''store_id'', VStr ''a''), (''platforms'', VStr ''foodpanda''), (''name'', VStr ''Assam A'')]
   \<and> \<not> sat any_text any_cond (Or [Fields [(''store_id'', Eq (VStr ''a''))]])
        [(''store_id'', VStr ''z''), (''platforms'', VStr ''ubereats'')]"
proof -
  let ?db = "matching_db two_platforms" and ?q = "tea_query (Some [''tea'']) None"
  let ?ms = "[[(''item_id'', VNum 1), (''store_id'', VStr ''a''), (''platforms'', VStr ''ubereats'')]]"
  let ?conds = "[Fields [(''store_id'', Eq (VStr ''a''))]]"
  have tags: "tags_of (drink_tags ?q) \<noteq> []"
    by (simp add: tea_query_def tags_of_def)
  have phase1: "?db ''menu_item'' (matching_pipeline (tags_of (drink_tags ?q)) (platform ?q)) = Inr ?ms"
    by (simp add: tea_eval)
  have ne: "?ms \<noteq> []" by simp
  have conds: "store_conditions ?ms = Inr ?conds" by simp
  note th = tagged_store_query_restricted_by_store_id
    [of ?q ?db ?ms ?conds "[]" any_text any_cond, OF tags phase1 ne conds]
  have simps: "tags_of (drink_tags ?q) = [''tea'']" "platform ?q = None"
    by (simp_all add: tea_query_def tags_of_def)
  from th [THEN conjunct1] have 1:
    "take 2 (snd (find_drink_stores_with_menu ?db ?q []))
       = [(''menu_item'', matching_pipeline [''tea''] None), (''store'', tagged_store_pipeline ?q ?conds)]"
    by (simp add: simps)
  note 2 = th [THEN conjunct2, THEN conjunct1]
  note iff = th [THEN conjunct2, THEN conjunct2, rule_format]
  have 3: "sat any_text any_cond (Or ?conds)
        [(''store_id'', VStr ''a''), (''platforms'', VStr ''foodpanda''), (''name'', VStr ''Assam A'')]"
    unfolding iff by simp
  have 4: "\<not> sat any_text any_cond (Or ?conds)
        [(''store_id'', VStr ''z''), (''platforms'', VStr ''ubereats'')]"
    unfolding iff by simp
  from tags phase1 conds 1 2 3 4 show ?thesis by blast
qed

end
